theory Spec2Isabelle
  imports Main "HOL-Library.Sublist"
begin

section \<open>Data model (backend/models.py)\<close>

text \<open>
  Instants of the UTC clock are natural numbers. A column that may hold NULL, and an
  attribute of an object that Python leaves at \<open>None\<close>, is an \<open>option\<close>.
  The classes \<open>Job\<close> and \<open>ScheduledRun\<close> are records; a table is the list of its rows
  in insertion order.
\<close>

type_synonym time = nat

record job =
  job_id :: "nat option"
  title :: "string option"
  company :: "string option"
  location :: "string option"
  description :: "string option"
  url :: "string option"
  date_posted :: "string option"
  created_at :: "time option"

record scheduled_run =
  run_id :: "nat option"
  run_time :: "time option"
  api_calls_made :: int
  success :: int

text \<open>
  The constructor calls of the fetcher: \<open>Job(title=.., company=.., location=..,
  description=.., url=.., date_posted=..)\<close> leaves \<open>id\<close> and \<open>created_at\<close> unset, and
  \<open>ScheduledRun(run_time=.., api_calls_made=.., success=..)\<close> leaves \<open>id\<close> unset.
\<close>

definition Job ::
  "string option \<Rightarrow> string option \<Rightarrow> string option \<Rightarrow> string option \<Rightarrow>
   string option \<Rightarrow> string option \<Rightarrow> job" where
  "Job t c l d u p =
     \<lparr>job_id = None, title = t, company = c, location = l, description = d, url = u,
      date_posted = p, created_at = None\<rparr>"

definition ScheduledRun :: "time \<Rightarrow> int \<Rightarrow> int \<Rightarrow> scheduled_run" where
  "ScheduledRun t n ok = \<lparr>run_id = None, run_time = Some t, api_calls_made = n, success = ok\<rparr>"

text \<open>The deduplication key of a row: the three columns the fetcher filters by.\<close>

type_synonym dedup_key = "string option \<times> string option \<times> string option"

definition job_key :: "job \<Rightarrow> dedup_key" where
  "job_key r = (title r, company r, location r)"

section \<open>The provider's reply (wire contract of the search endpoint)\<close>

text \<open>
  A reply that has the shape of the wire contract. One element of \<open>jobs_results\<close> is a
  JSON object whose keys may be absent; \<open>None\<close> is an absent key (or a JSON null, which
  \<open>job.get\<close> does not tell apart). \<open>detected_extensions\<close>, when present, is itself an
  object with an optional \<open>link\<close>. Replies of any other JSON shape, on which the code
  raises, are modelled further down (section on replies of any JSON shape), where the
  code is translated again over them; on a reply of the contract's shape the two
  translations agree.
\<close>

record extensions =
  link :: "string option"

record candidate =
  r_title :: "string option"
  r_company_name :: "string option"
  r_location :: "string option"
  r_description :: "string option"
  r_detected_extensions :: "extensions option"
  r_published_at :: "string option"

text \<open>
  \<open>requests.get\<close> either raises (timeout, connection error) or returns a response with a
  status code and a body; the body is either not JSON (\<open>r.json()\<close> raises) or a JSON
  object in which the key \<open>jobs_results\<close> is absent or an array of candidates. The code
  never looks at the status code.
\<close>

datatype net_error = Timeout | ConnectionError

datatype body = NotJson | Json "candidate list option"

datatype http_reply = NoReply net_error | Reply nat body

datatype error =
    RequestException net_error
  | JSONDecodeError
  | AttributeError
  | TypeError
  | IntegrityError
  | CommitError

text \<open>
  What the outside world does during one cycle: the provider's reply, the time the HTTP
  call takes, and whether the database accepts the final COMMIT.
\<close>

record environment =
  provider_reply :: http_reply
  latency :: time
  commit_ok :: bool

section \<open>The world and the SQLAlchemy session\<close>

record request =
  req_url :: string
  req_engine :: string
  req_q :: string
  req_api_key :: string
  req_num :: nat
  req_timeout :: nat

datatype log_record = Warning_key_not_set | Info_saved nat

text \<open>
  The world holds the committed tables \<open>jobs\<close> and \<open>scheduled_runs\<close>, the clock, the
  HTTP requests issued so far and the log. The clock advances while a request is in
  flight; the database work of a cycle is taken to be instantaneous, so every reading of
  \<open>datetime.utcnow\<close> after the request gives the same instant.
\<close>

record world =
  jobs :: "job list"
  scheduled_runs :: "scheduled_run list"
  now :: time
  requests_sent :: "request list"
  logged :: "log_record list"

text \<open>
  A session holds the objects passed to \<open>db.add\<close> and not yet flushed (\<open>new_jobs\<close>,
  \<open>new_runs\<close>, in the order added) and the rows its open transaction has INSERTed and not
  yet committed (\<open>tx_jobs\<close>, \<open>tx_runs\<close>). The session factory \<open>SessionLocal\<close> lives in
  backend/database.py, which is not among the sources: its \<open>autoflush\<close> option is a
  parameter of the model (the library's default is on).
\<close>

record session =
  autoflush :: bool
  new_jobs :: "job list"
  new_runs :: "scheduled_run list"
  tx_jobs :: "job list"
  tx_runs :: "scheduled_run list"

definition SessionLocal :: "bool \<Rightarrow> session" where
  "SessionLocal af = \<lparr>autoflush = af, new_jobs = [], new_runs = [], tx_jobs = [], tx_runs = []\<rparr>"

text \<open>
  The primary key generator: one more than the largest key among the rows the
  transaction sees.
\<close>

fun largest_job_id :: "job list \<Rightarrow> nat" where
  "largest_job_id [] = 0"
| "largest_job_id (r # rs) =
     max (case job_id r of None \<Rightarrow> 0 | Some n \<Rightarrow> n) (largest_job_id rs)"

fun largest_run_id :: "scheduled_run list \<Rightarrow> nat" where
  "largest_run_id [] = 0"
| "largest_run_id (r # rs) =
     max (case run_id r of None \<Rightarrow> 0 | Some n \<Rightarrow> n) (largest_run_id rs)"

text \<open>
  INSERT of one object: the key is generated, and a column default
  (\<open>default=datetime.utcnow\<close>) fills an attribute that was left unset.
\<close>

definition stored_job :: "time \<Rightarrow> nat \<Rightarrow> job \<Rightarrow> job" where
  "stored_job t n j =
     j\<lparr>job_id := Some n,
       created_at := (case created_at j of None \<Rightarrow> Some t | Some c \<Rightarrow> Some c)\<rparr>"

definition stored_run :: "time \<Rightarrow> nat \<Rightarrow> scheduled_run \<Rightarrow> scheduled_run" where
  "stored_run t n r =
     r\<lparr>run_id := Some n,
       run_time := (case run_time r of None \<Rightarrow> Some t | Some c \<Rightarrow> Some c)\<rparr>"

fun insert_jobs :: "time \<Rightarrow> job list \<Rightarrow> job list \<Rightarrow> job list" where
  "insert_jobs t rows [] = []"
| "insert_jobs t rows (j # js) =
     (let r = stored_job t (Suc (largest_job_id rows)) j
      in r # insert_jobs t (rows @ [r]) js)"

fun insert_runs :: "time \<Rightarrow> scheduled_run list \<Rightarrow> scheduled_run list \<Rightarrow> scheduled_run list" where
  "insert_runs t rows [] = []"
| "insert_runs t rows (x # xs) =
     (let r = stored_run t (Suc (largest_run_id rows)) x
      in r # insert_runs t (rows @ [r]) xs)"

text \<open>
  \<open>Session.flush\<close>: the pending objects are INSERTed inside the open transaction. The
  column \<open>jobs.title\<close> is declared \<open>nullable=False\<close>: a pending \<open>Job\<close> whose title is
  \<open>None\<close> makes the flush raise \<open>IntegrityError\<close>.
\<close>

definition flush :: "world \<Rightarrow> session \<Rightarrow> error + session" where
  "flush w s =
     (if list_ex (\<lambda>j. title j = None) (new_jobs s) then Inl IntegrityError
      else Inr (s\<lparr>tx_jobs := tx_jobs s @ insert_jobs (now w) (jobs w @ tx_jobs s) (new_jobs s),
                  tx_runs := tx_runs s @ insert_runs (now w) (scheduled_runs w @ tx_runs s) (new_runs s),
                  new_jobs := [],
                  new_runs := []\<rparr>))"

text \<open>
  \<open>db.query(Job).filter_by(title=.., company=.., location=..).first()\<close>: with autoflush
  on, the session flushes first; the query then sees the committed rows and the rows of
  the open transaction. \<open>filter_by(col=None)\<close> is rendered \<open>col IS NULL\<close>, so the
  comparison is equality of optional values.
\<close>

definition query_first :: "world \<Rightarrow> session \<Rightarrow> dedup_key \<Rightarrow> error + (session \<times> job option)" where
  "query_first w s k =
     (case (if autoflush s then flush w s else Inr s) of
        Inl e \<Rightarrow> Inl e
      | Inr s' \<Rightarrow> Inr (s', find (\<lambda>r. job_key r = k) (jobs w @ tx_jobs s')))"

definition add_job :: "job \<Rightarrow> session \<Rightarrow> session" where
  "add_job j s = s\<lparr>new_jobs := new_jobs s @ [j]\<rparr>"

definition add_run :: "scheduled_run \<Rightarrow> session \<Rightarrow> session" where
  "add_run r s = s\<lparr>new_runs := new_runs s @ [r]\<rparr>"

text \<open>
  \<open>db.commit()\<close>: flush, then COMMIT. When the database refuses the COMMIT nothing of
  the transaction becomes durable and the call raises.
\<close>

definition commit :: "bool \<Rightarrow> world \<Rightarrow> session \<Rightarrow> error + (session \<times> world)" where
  "commit ok w s =
     (case flush w s of
        Inl e \<Rightarrow> Inl e
      | Inr s' \<Rightarrow>
          if ok
          then Inr (s'\<lparr>tx_jobs := [], tx_runs := []\<rparr>,
                    w\<lparr>jobs := jobs w @ tx_jobs s',
                      scheduled_runs := scheduled_runs w @ tx_runs s'\<rparr>)
          else Inl CommitError)"

section \<open>The ingestion cycle (backend/serpapi_fetcher.py, backend/scheduler.py)\<close>

text \<open>
  The module constants read from the process environment: \<open>SERPAPI_KEY\<close> is \<open>None\<close>
  when the variable is not set; \<open>not SERPAPI_KEY\<close> holds for \<open>None\<close> and for the empty
  string.
\<close>

record config =
  SERPAPI_KEY :: "string option"
  SEARCH_QUERY :: string

definition SERP_URL :: string where
  "SERP_URL = ''https://serpapi.com/search.json''"

definition key_missing :: "config \<Rightarrow> bool" where
  "key_missing cfg = (case SERPAPI_KEY cfg of None \<Rightarrow> True | Some k \<Rightarrow> k = [])"

definition params :: "config \<Rightarrow> request" where
  "params cfg =
     \<lparr>req_url = SERP_URL, req_engine = ''google_jobs'', req_q = SEARCH_QUERY cfg,
      req_api_key = (case SERPAPI_KEY cfg of None \<Rightarrow> [] | Some k \<Rightarrow> k),
      req_num = 100, req_timeout = 30\<rparr>"

text \<open>
  The mapping of one candidate of the contract's shape: every field is read with
  \<open>job.get\<close>, and the link with \<open>job.get('detected_extensions', {}).get('link')\<close>. On
  such a candidate no \<open>.get\<close> can raise; \<open>job_of_json\<close> further down is the same mapping
  on any object, with the \<open>AttributeError\<close> of a \<open>detected_extensions\<close> that is not an
  object.
\<close>

definition candidate_key :: "candidate \<Rightarrow> dedup_key" where
  "candidate_key c = (r_title c, r_company_name c, r_location c)"

definition job_of :: "candidate \<Rightarrow> job" where
  "job_of c =
     Job (r_title c) (r_company_name c) (r_location c) (r_description c)
       (case r_detected_extensions c of None \<Rightarrow> None | Some e \<Rightarrow> link e)
       (r_published_at c)"

text \<open>
  \<open>requests.get(SERP_URL, params=params, timeout=30)\<close>: the request is issued, the clock
  advances by the time the call takes, and the call raises or returns a response.
  \<open>r.json()\<close> raises on a body that is not JSON; \<open>data.get('jobs_results', [])\<close> is the
  empty list when the key is absent. A JSON body of another shape than the contract's
  (not an object, or with a \<open>jobs_results\<close> that is not an array of objects) is read by
  \<open>r_json\<close>, \<open>get_jobs_results\<close> and \<open>iterate\<close> further down, which raise where lines
  23 to 27 do.
\<close>

definition requests_get ::
  "request \<Rightarrow> environment \<Rightarrow> world \<Rightarrow> (error + nat \<times> body) \<times> world" where
  "requests_get rq env w =
     (let w1 = w\<lparr>requests_sent := requests_sent w @ [rq], now := now w + latency env\<rparr>
      in (case provider_reply env of
            NoReply e \<Rightarrow> (Inl (RequestException e), w1)
          | Reply status b \<Rightarrow> (Inr (status, b), w1)))"

definition json :: "body \<Rightarrow> error + candidate list option" where
  "json b = (case b of NotJson \<Rightarrow> Inl JSONDecodeError | Json data \<Rightarrow> Inr data)"

definition jobs_results :: "candidate list option \<Rightarrow> candidate list" where
  "jobs_results data = (case data of None \<Rightarrow> [] | Some rs \<Rightarrow> rs)"

text \<open>The loop \<open>for job in results\<close>, with the counter \<open>saved\<close>.\<close>

fun store_loop :: "world \<Rightarrow> candidate list \<Rightarrow> session \<Rightarrow> nat \<Rightarrow> error + (session \<times> nat)" where
  "store_loop w [] s saved = Inr (s, saved)"
| "store_loop w (c # cs) s saved =
     (case query_first w s (candidate_key c) of
        Inl e \<Rightarrow> Inl e
      | Inr (s', Some exists) \<Rightarrow> store_loop w cs s' saved
      | Inr (s', None) \<Rightarrow> store_loop w cs (add_job (job_of c) s') (saved + 1))"

text \<open>
  \<open>fetch_and_store_jobs(db)\<close>. An exception is the \<open>Inl\<close> result; the session and the
  world are returned as they are at that point. The run record is built after the loop,
  with \<open>run_time=datetime.datetime.utcnow()\<close> read at that moment.
\<close>

definition fetch_and_store_jobs ::
  "config \<Rightarrow> environment \<Rightarrow> session \<Rightarrow> world \<Rightarrow> (error + unit) \<times> session \<times> world" where
  "fetch_and_store_jobs cfg env db w =
     (if key_missing cfg
      then (Inr (), db, w\<lparr>logged := logged w @ [Warning_key_not_set]\<rparr>)
      else
        (case requests_get (params cfg) env w of
           (Inl e, w1) \<Rightarrow> (Inl e, db, w1)
         | (Inr (status, b), w1) \<Rightarrow>
             (case json b of
                Inl e \<Rightarrow> (Inl e, db, w1)
              | Inr data \<Rightarrow>
                  (case store_loop w1 (jobs_results data) db 0 of
                     Inl e \<Rightarrow> (Inl e, db, w1)
                   | Inr (db1, saved) \<Rightarrow>
                       (let run = ScheduledRun (now w1) 1 1;
                            db2 = add_run run db1
                        in (case commit (commit_ok env) w1 db2 of
                              Inl e \<Rightarrow> (Inl e, db2, w1)
                            | Inr (db3, w2) \<Rightarrow>
                                (Inr (), db3,
                                 (w2\<lparr>logged := logged w2 @ [Info_saved saved]\<rparr>))))))))"

text \<open>
  \<open>serpapi_job()\<close> of the scheduler: a fresh session, the fetch, and \<open>db.close()\<close> in
  the \<open>finally\<close> clause, which drops whatever the session had not committed. There is no
  \<open>except\<close> clause: an exception of the fetch is the result of the job.
\<close>

definition serpapi_job :: "bool \<Rightarrow> config \<Rightarrow> environment \<Rightarrow> world \<Rightarrow> (error + unit) \<times> world" where
  "serpapi_job af cfg env w =
     (case fetch_and_store_jobs cfg env (SessionLocal af) w of (r, db, w') \<Rightarrow> (r, w'))"

section \<open>Replies of any JSON shape\<close>

text \<open>
  The code reads whatever JSON arrives. The body may be JSON that is not an object
  (\<open>data.get\<close> raises \<open>AttributeError\<close> on line 23). In an object, \<open>jobs_results\<close> may be
  missing (the default \<open>[]\<close> is taken), an array, or a value that cannot be iterated
  (null, a number, a truth value: the \<open>for\<close> on line 25 raises \<open>TypeError\<close>). A string or
  an object in its place is iterated too, and yields strings: it is an array of elements
  that are not objects. An element that is not an object makes \<open>job.get\<close> raise
  \<open>AttributeError\<close> on line 27, while the arguments of \<open>filter_by\<close> are built and before
  any query is sent. In an element that is an object, \<open>detected_extensions\<close> may be
  missing, an object, or present as anything else (null included), on which
  \<open>.get('link')\<close> raises \<open>AttributeError\<close> on line 36. That line is reached only when
  the lookup has found no listing. The other five fields are query parameters and column
  values: they are taken to be strings, null or missing.
\<close>

datatype extensions_field = ExtensionsMissing | ExtensionsObject extensions | ExtensionsOther

record result_json =
  j_title :: "string option"
  j_company_name :: "string option"
  j_location :: "string option"
  j_description :: "string option"
  j_detected_extensions :: extensions_field
  j_published_at :: "string option"

datatype element = ResultObject result_json | ResultOther

datatype results_field = ResultsMissing | ResultsArray "element list" | ResultsNotIterable

datatype json_data = DataObject results_field | DataOther

datatype json_body = BodyNotJson | BodyJson json_data

datatype json_reply = JsonNoReply net_error | JsonReply nat json_body

record json_environment =
  json_provider_reply :: json_reply
  json_latency :: time
  json_commit_ok :: bool

definition requests_get_json ::
  "request \<Rightarrow> json_environment \<Rightarrow> world \<Rightarrow> (error + nat \<times> json_body) \<times> world" where
  "requests_get_json rq env w =
     (let w1 = w\<lparr>requests_sent := requests_sent w @ [rq], now := now w + json_latency env\<rparr>
      in (case json_provider_reply env of
            JsonNoReply e \<Rightarrow> (Inl (RequestException e), w1)
          | JsonReply status b \<Rightarrow> (Inr (status, b), w1)))"

definition r_json :: "json_body \<Rightarrow> error + json_data" where
  "r_json b = (case b of BodyNotJson \<Rightarrow> Inl JSONDecodeError | BodyJson d \<Rightarrow> Inr d)"

definition get_jobs_results :: "json_data \<Rightarrow> error + results_field" where
  "get_jobs_results d =
     (case d of
        DataOther \<Rightarrow> Inl AttributeError
      | DataObject ResultsMissing \<Rightarrow> Inr (ResultsArray [])
      | DataObject r \<Rightarrow> Inr r)"

definition iterate :: "results_field \<Rightarrow> error + element list" where
  "iterate r =
     (case r of
        ResultsMissing \<Rightarrow> Inr []
      | ResultsArray xs \<Rightarrow> Inr xs
      | ResultsNotIterable \<Rightarrow> Inl TypeError)"

definition json_key :: "result_json \<Rightarrow> dedup_key" where
  "json_key c = (j_title c, j_company_name c, j_location c)"

definition job_of_json :: "result_json \<Rightarrow> error + job" where
  "job_of_json c =
     (case j_detected_extensions c of
        ExtensionsOther \<Rightarrow> Inl AttributeError
      | ExtensionsMissing \<Rightarrow>
          Inr (Job (j_title c) (j_company_name c) (j_location c) (j_description c) None
                 (j_published_at c))
      | ExtensionsObject e \<Rightarrow>
          Inr (Job (j_title c) (j_company_name c) (j_location c) (j_description c) (link e)
                 (j_published_at c)))"

fun store_loop_json ::
  "world \<Rightarrow> element list \<Rightarrow> session \<Rightarrow> nat \<Rightarrow> error + (session \<times> nat)" where
  "store_loop_json w [] s saved = Inr (s, saved)"
| "store_loop_json w (ResultOther # xs) s saved = Inl AttributeError"
| "store_loop_json w (ResultObject c # xs) s saved =
     (case query_first w s (json_key c) of
        Inl e \<Rightarrow> Inl e
      | Inr (s', Some exists) \<Rightarrow> store_loop_json w xs s' saved
      | Inr (s', None) \<Rightarrow>
          (case job_of_json c of
             Inl e \<Rightarrow> Inl e
           | Inr j \<Rightarrow> store_loop_json w xs (add_job j s') (saved + 1)))"

definition fetch_and_store_jobs_json ::
  "config \<Rightarrow> json_environment \<Rightarrow> session \<Rightarrow> world \<Rightarrow> (error + unit) \<times> session \<times> world" where
  "fetch_and_store_jobs_json cfg env db w =
     (if key_missing cfg
      then (Inr (), db, w\<lparr>logged := logged w @ [Warning_key_not_set]\<rparr>)
      else
        (case requests_get_json (params cfg) env w of
           (Inl e, w1) \<Rightarrow> (Inl e, db, w1)
         | (Inr (status, b), w1) \<Rightarrow>
             (case r_json b of
                Inl e \<Rightarrow> (Inl e, db, w1)
              | Inr d \<Rightarrow>
                  (case get_jobs_results d of
                     Inl e \<Rightarrow> (Inl e, db, w1)
                   | Inr results \<Rightarrow>
                       (case iterate results of
                          Inl e \<Rightarrow> (Inl e, db, w1)
                        | Inr xs \<Rightarrow>
                            (case store_loop_json w1 xs db 0 of
                               Inl e \<Rightarrow> (Inl e, db, w1)
                             | Inr (db1, saved) \<Rightarrow>
                                 (let run = ScheduledRun (now w1) 1 1;
                                      db2 = add_run run db1
                                  in (case commit (json_commit_ok env) w1 db2 of
                                        Inl e \<Rightarrow> (Inl e, db2, w1)
                                      | Inr (db3, w2) \<Rightarrow>
                                          (Inr (), db3,
                                           (w2\<lparr>logged := logged w2 @ [Info_saved saved]\<rparr>))))))))))"

definition serpapi_job_json ::
  "bool \<Rightarrow> config \<Rightarrow> json_environment \<Rightarrow> world \<Rightarrow> (error + unit) \<times> world" where
  "serpapi_job_json af cfg env w =
     (case fetch_and_store_jobs_json cfg env (SessionLocal af) w of (r, db, w') \<Rightarrow> (r, w'))"

text \<open>A reply of the contract's shape, as a reply of any shape.\<close>

definition as_json :: "candidate \<Rightarrow> result_json" where
  "as_json c =
     \<lparr>j_title = r_title c, j_company_name = r_company_name c, j_location = r_location c,
      j_description = r_description c,
      j_detected_extensions =
        (case r_detected_extensions c of
           None \<Rightarrow> ExtensionsMissing
         | Some e \<Rightarrow> ExtensionsObject e),
      j_published_at = r_published_at c\<rparr>"

definition json_of_body :: "body \<Rightarrow> json_body" where
  "json_of_body b =
     (case b of
        NotJson \<Rightarrow> BodyNotJson
      | Json None \<Rightarrow> BodyJson (DataObject ResultsMissing)
      | Json (Some cs) \<Rightarrow> BodyJson (DataObject (ResultsArray (map (\<lambda>c. ResultObject (as_json c)) cs))))"

definition json_of_reply :: "http_reply \<Rightarrow> json_reply" where
  "json_of_reply r =
     (case r of
        NoReply e \<Rightarrow> JsonNoReply e
      | Reply status b \<Rightarrow> JsonReply status (json_of_body b))"

definition json_of_environment :: "environment \<Rightarrow> json_environment" where
  "json_of_environment env =
     \<lparr>json_provider_reply = json_of_reply (provider_reply env),
      json_latency = latency env,
      json_commit_ok = commit_ok env\<rparr>"

text \<open>
  The shape of the wire contract, as a condition on what stands under \<open>jobs_results\<close>:
  missing or an array of objects whose \<open>detected_extensions\<close> are missing or objects.
\<close>

definition contract_element :: "element \<Rightarrow> bool" where
  "contract_element x =
     (case x of
        ResultOther \<Rightarrow> False
      | ResultObject c \<Rightarrow> j_detected_extensions c \<noteq> ExtensionsOther)"

definition contract_shape :: "results_field \<Rightarrow> bool" where
  "contract_shape r =
     (case r of
        ResultsMissing \<Rightarrow> True
      | ResultsArray xs \<Rightarrow> list_all contract_element xs
      | ResultsNotIterable \<Rightarrow> False)"

definition titled_element :: "element \<Rightarrow> bool" where
  "titled_element x = (case x of ResultOther \<Rightarrow> True | ResultObject c \<Rightarrow> j_title c \<noteq> None)"

definition all_titled :: "results_field \<Rightarrow> bool" where
  "all_titled r = (case r of ResultsArray xs \<Rightarrow> list_all titled_element xs | _ \<Rightarrow> True)"

section \<open>The listing query (backend/app.py)\<close>

text \<open>
  Characters are bytes. \<open>lower\<close> is \<open>str.lower\<close> on ASCII text: it folds the letters
  \<open>A\<close> to \<open>Z\<close> and leaves every other byte as it is. On text beyond ASCII it is not
  \<open>str.lower\<close>, and \<open>list_jobs\<close> below gives no answer there.
\<close>

definition ascii_uppercase :: string where
  "ascii_uppercase = ''ABCDEFGHIJKLMNOPQRSTUVWXYZ''"

definition ascii_lowercase :: string where
  "ascii_lowercase = ''abcdefghijklmnopqrstuvwxyz''"

definition lower_char :: "char \<Rightarrow> char" where
  "lower_char c =
     (case map_of (zip ascii_uppercase ascii_lowercase) c of None \<Rightarrow> c | Some l \<Rightarrow> l)"

definition lower :: "string \<Rightarrow> string" where
  "lower s = map lower_char s"

text \<open>
  The SQL operator behind \<open>Job.title.ilike(pattern)\<close>: in the pattern \<open>%\<close> stands for
  any run of characters and \<open>_\<close> for any one character; every other character stands
  for itself, compared without regard to case. The code passes no escape character, and
  none is assumed. A NULL title matches no pattern.
\<close>

fun like :: "string \<Rightarrow> string \<Rightarrow> bool" where
  "like [] [] = True"
| "like [] (c # s) = False"
| "like (p # ps) [] = (p = CHR ''%'' \<and> like ps [])"
| "like (p # ps) (c # s) =
     (if p = CHR ''%'' then like ps (c # s) \<or> like (p # ps) s
      else (p = CHR ''_'' \<or> lower_char p = lower_char c) \<and> like ps s)"

definition ilike :: "string option \<Rightarrow> string \<Rightarrow> bool" where
  "ilike col pattern = (case col of None \<Rightarrow> False | Some t \<Rightarrow> like pattern t)"

text \<open>
  \<open>order_by(Job.created_at.desc())\<close>: a NULL timestamp sorts lowest; the order among
  rows of equal timestamp is the database's choice (here: the later row first).
\<close>

definition created_rank :: "job \<Rightarrow> nat" where
  "created_rank j = (case created_at j of None \<Rightarrow> 0 | Some t \<Rightarrow> Suc t)"

definition order_by_created_desc :: "job list \<Rightarrow> job list" where
  "order_by_created_desc js = rev (sort_key created_rank js)"

record item =
  item_id :: "nat option"
  item_title :: "string option"
  item_company :: "string option"
  item_location :: "string option"
  item_description :: "string option"
  item_url :: "string option"
  item_date_posted :: "string option"

definition item_of :: "job \<Rightarrow> item" where
  "item_of j =
     \<lparr>item_id = job_id j, item_title = title j, item_company = company j,
      item_location = location j, item_description = description j, item_url = url j,
      item_date_posted = date_posted j\<rparr>"

record listing =
  data :: "item list"
  total :: nat
  page :: int

text \<open>
  The query arguments, after \<open>int(..)\<close>; an absent argument takes the default of
  \<open>request.args.get\<close>.
\<close>

record args =
  arg_q :: "string option"
  arg_page :: "int option"
  arg_limit :: "int option"

definition title_filter :: "string \<Rightarrow> job \<Rightarrow> bool" where
  "title_filter q j = ilike (title j) (''%'' @ q @ ''%'')"

text \<open>
  Text beyond ASCII is outside the model. \<open>str.lower\<close> folds the letters of all of
  Unicode, and the database's case-insensitive comparison folds letters beyond ASCII in
  a way that depends on the engine; the byte strings of the model follow neither. A
  character is ASCII when its top bit is clear.
\<close>

definition ascii_text :: "string \<Rightarrow> bool" where
  "ascii_text s = list_all (\<lambda>c. \<not> digit7 c) s"

definition ascii_titles :: "job list \<Rightarrow> bool" where
  "ascii_titles js = list_all (\<lambda>j. case title j of None \<Rightarrow> True | Some t \<Rightarrow> ascii_text t) js"

text \<open>
  \<open>list_jobs()\<close>. A negative offset or limit is left to the database (it is an error on
  one engine and clamped on another): the model answers \<open>None\<close> there. It also answers
  \<open>None\<close> when a filter is applied and the query text or a stored title is not ASCII.
\<close>

definition list_jobs :: "args \<Rightarrow> world \<Rightarrow> listing option" where
  "list_jobs a w =
     (let x = (case arg_q a of None \<Rightarrow> [] | Some x \<Rightarrow> x);
          q = lower x;
          pg = (case arg_page a of None \<Rightarrow> 1 | Some n \<Rightarrow> n);
          limit = (case arg_limit a of None \<Rightarrow> 20 | Some n \<Rightarrow> n);
          offset = (pg - 1) * limit;
          query = (if q \<noteq> [] then filter (title_filter q) (jobs w) else jobs w);
          total_count = length query
      in if offset < 0 \<or> limit < 0 then None
         else if q \<noteq> [] \<and> \<not> (ascii_text x \<and> ascii_titles (jobs w)) then None
         else Some \<lparr>data = map item_of
                             (take (nat limit) (drop (nat offset) (order_by_created_desc query))),
                    total = total_count,
                    page = pg\<rparr>)"

text \<open>
  The specification of the filter in the words of the spec: a case-insensitive
  substring match of the query text against the title (on ASCII text, as \<open>lower\<close>).
\<close>

definition ci_substring :: "string \<Rightarrow> string option \<Rightarrow> bool" where
  "ci_substring q t = (case t of None \<Rightarrow> False | Some s \<Rightarrow> sublist (lower q) (lower s))"

definition wildcard_free :: "string \<Rightarrow> bool" where
  "wildcard_free q = (CHR ''%'' \<notin> set q \<and> CHR ''_'' \<notin> set q)"

section \<open>The cycle in closed form\<close>

text \<open>
  The candidates one cycle adds, in the provider's order: those whose key the lookup
  does not find. \<open>seen\<close> holds the keys the lookup finds; with autoflush on, a
  candidate added earlier in the same cycle has been flushed by the time of the next
  lookup and is found, with autoflush off it is not.
\<close>

fun fresh :: "bool \<Rightarrow> dedup_key list \<Rightarrow> candidate list \<Rightarrow> candidate list" where
  "fresh af seen [] = []"
| "fresh af seen (c # cs) =
     (if candidate_key c \<in> set seen then fresh af seen cs
      else c # fresh af (if af then seen @ [candidate_key c] else seen) cs)"

definition lookup_keys :: "world \<Rightarrow> session \<Rightarrow> dedup_key list" where
  "lookup_keys w s =
     map job_key (jobs w @ tx_jobs s @ (if autoflush s then new_jobs s else []))"

definition loop_then_flush ::
  "world \<Rightarrow> candidate list \<Rightarrow> session \<Rightarrow> nat \<Rightarrow> scheduled_run list \<Rightarrow> error + (session \<times> nat)" where
  "loop_then_flush w cs s n rs =
     (case store_loop w cs s n of
        Inl e \<Rightarrow> Inl e
      | Inr (s', n') \<Rightarrow>
          (case flush w (s'\<lparr>new_runs := new_runs s' @ rs\<rparr>) of
             Inl e \<Rightarrow> Inl e
           | Inr s'' \<Rightarrow> Inr (s'', n')))"

definition flushed :: "world \<Rightarrow> session \<Rightarrow> job list \<Rightarrow> scheduled_run list \<Rightarrow> session" where
  "flushed w s js rs =
     s\<lparr>tx_jobs := tx_jobs s @ insert_jobs (now w) (jobs w @ tx_jobs s) js,
       tx_runs := tx_runs s @ insert_runs (now w) (scheduled_runs w @ tx_runs s) rs,
       new_jobs := [],
       new_runs := []\<rparr>"

definition reply_candidates :: "http_reply \<Rightarrow> candidate list" where
  "reply_candidates r =
     (case r of
        NoReply e \<Rightarrow> []
      | Reply status NotJson \<Rightarrow> []
      | Reply status (Json d) \<Rightarrow> jobs_results d)"

definition dedup_invariant :: "job list \<Rightarrow> bool" where
  "dedup_invariant js = distinct (map job_key js)"

definition is_json :: "http_reply \<Rightarrow> bool" where
  "is_json r =
     (case r of
        NoReply e \<Rightarrow> False
      | Reply status NotJson \<Rightarrow> False
      | Reply status (Json d) \<Rightarrow> True)"

text \<open>The condition under which a cycle reaches its COMMIT and the COMMIT is accepted.\<close>

definition commits :: "bool \<Rightarrow> config \<Rightarrow> environment \<Rightarrow> world \<Rightarrow> bool" where
  "commits af cfg env w =
     (\<not> key_missing cfg \<and> commit_ok env \<and> is_json (provider_reply env) \<and>
      \<not> list_ex (\<lambda>c. r_title c = None)
          (fresh af (map job_key (jobs w)) (reply_candidates (provider_reply env))))"

text \<open>The exception a reply makes the fetch raise, if any.\<close>

definition fetch_error :: "http_reply \<Rightarrow> error option" where
  "fetch_error r =
     (case r of
        NoReply e \<Rightarrow> Some (RequestException e)
      | Reply status NotJson \<Rightarrow> Some JSONDecodeError
      | Reply status (Json d) \<Rightarrow> None)"

text \<open>No object waiting to be flushed lacks a title.\<close>

definition titled_pending :: "session \<Rightarrow> bool" where
  "titled_pending s = (\<not> list_ex (\<lambda>j. title j = None) (new_jobs s))"

section \<open>Example inputs\<close>

definition bare_json :: result_json where
  "bare_json =
     \<lparr>j_title = Some ''Clerk'', j_company_name = None, j_location = None,
      j_description = None, j_detected_extensions = ExtensionsMissing,
      j_published_at = None\<rparr>"

definition untitled_json :: result_json where
  "untitled_json =
     \<lparr>j_title = None, j_company_name = Some ''Acme'', j_location = Some ''Durban'',
      j_description = Some ''no title given'', j_detected_extensions = ExtensionsMissing,
      j_published_at = None\<rparr>"

definition null_extensions_json :: result_json where
  "null_extensions_json =
     \<lparr>j_title = Some ''Backend Engineer'', j_company_name = Some ''Acme'',
      j_location = Some ''Durban'', j_description = None,
      j_detected_extensions = ExtensionsOther, j_published_at = None\<rparr>"

definition json_answers :: "element list \<Rightarrow> json_environment" where
  "json_answers xs =
     \<lparr>json_provider_reply = JsonReply 200 (BodyJson (DataObject (ResultsArray xs))),
      json_latency = 7, json_commit_ok = True\<rparr>"


definition example_config :: config where
  "example_config =
     \<lparr>SERPAPI_KEY = Some ''secret'', SEARCH_QUERY = ''software developer jobs south africa''\<rparr>"

definition unset_config :: config where
  "unset_config = \<lparr>SERPAPI_KEY = None, SEARCH_QUERY = ''software developer jobs south africa''\<rparr>"

definition posting :: "string \<Rightarrow> string \<Rightarrow> candidate" where
  "posting t d =
     \<lparr>r_title = Some t, r_company_name = Some ''Acme'', r_location = Some ''Durban'',
      r_description = Some d, r_detected_extensions = None, r_published_at = None\<rparr>"

definition untitled :: candidate where
  "untitled =
     \<lparr>r_title = None, r_company_name = Some ''Acme'', r_location = Some ''Durban'',
      r_description = Some ''no title given'', r_detected_extensions = None,
      r_published_at = None\<rparr>"

definition three_postings :: "candidate list" where
  "three_postings =
     [posting ''Backend Engineer'' ''a'', posting ''Data Analyst'' ''b'', posting ''Designer'' ''c'']"

definition repeated_postings :: "candidate list" where
  "repeated_postings =
     [posting ''Backend Engineer'' ''first'', posting ''Backend Engineer'' ''second'']"

definition mixed_postings :: "candidate list" where
  "mixed_postings =
     [posting ''Backend Engineer'' ''first'', posting ''Data Analyst'' ''b'',
      posting ''Backend Engineer'' ''third'']"

definition empty_world :: world where
  "empty_world = \<lparr>jobs = [], scheduled_runs = [], now = 100, requests_sent = [], logged = []\<rparr>"

definition answers :: "candidate list \<Rightarrow> environment" where
  "answers cs = \<lparr>provider_reply = Reply 200 (Json (Some cs)), latency = 7, commit_ok = True\<rparr>"

definition refuses :: "candidate list \<Rightarrow> environment" where
  "refuses cs = \<lparr>provider_reply = Reply 200 (Json (Some cs)), latency = 7, commit_ok = False\<rparr>"

definition times_out :: environment where
  "times_out = \<lparr>provider_reply = NoReply Timeout, latency = 30, commit_ok = True\<rparr>"

definition once :: "bool \<Rightarrow> candidate list \<Rightarrow> world" where
  "once af cs = snd (serpapi_job af example_config (answers cs) empty_world)"

definition twice :: "bool \<Rightarrow> candidate list \<Rightarrow> world" where
  "twice af cs = snd (serpapi_job af example_config (answers cs) (once af cs))"

definition titled :: "nat \<Rightarrow> string \<Rightarrow> time \<Rightarrow> job" where
  "titled n t c =
     \<lparr>job_id = Some n, title = Some t, company = Some ''Acme'', location = Some ''Durban'',
      description = None, url = None, date_posted = None, created_at = Some c\<rparr>"

definition two_listings :: world where
  "two_listings =
     \<lparr>jobs = [titled 1 ''Backend Engineer'' 10, titled 2 ''Data Analyst'' 20],
      scheduled_runs = [], now = 100, requests_sent = [], logged = []\<rparr>"

definition query :: "string \<Rightarrow> args" where
  "query q = \<lparr>arg_q = Some q, arg_page = None, arg_limit = None\<rparr>"

definition bare :: candidate where
  "bare =
     \<lparr>r_title = Some ''Clerk'', r_company_name = None, r_location = None,
      r_description = None, r_detected_extensions = None, r_published_at = None\<rparr>"

definition server_error :: environment where
  "server_error = \<lparr>provider_reply = Reply 500 (Json None), latency = 1, commit_ok = True\<rparr>"

definition restocked :: world where
  "restocked =
     snd (serpapi_job False example_config
            (answers [posting ''Backend Engineer'' ''changed'', posting ''Designer'' ''c''])
            two_listings)"

section \<open>Lemmas on the session and the loop\<close>

lemma job_key_stored [simp]: "job_key (stored_job t n j) = job_key j"
  by (simp add: job_key_def stored_job_def)

lemma job_key_job_of [simp]: "job_key (job_of c) = candidate_key c"
  by (simp add: job_key_def job_of_def Job_def candidate_key_def)

lemma title_job_of [simp]: "title (job_of c) = r_title c"
  by (simp add: job_of_def Job_def)

lemma keys_insert_jobs [simp]: "map job_key (insert_jobs t rows js) = map job_key js"
  by (induction js arbitrary: rows) (simp_all add: Let_def)

lemma insert_jobs_append:
  "insert_jobs t rows (xs @ ys) =
   insert_jobs t rows xs @ insert_jobs t (rows @ insert_jobs t rows xs) ys"
  by (induction xs arbitrary: rows) (simp_all add: Let_def)

lemma find_key_iff: "find (\<lambda>r. job_key r = k) rows = None \<longleftrightarrow> k \<notin> set (map job_key rows)"
  by (auto simp: find_None_iff)

lemma loop_then_flush_closed:
  "new_runs s = [] \<Longrightarrow>
   loop_then_flush w cs s n rs =
     (let F = fresh (autoflush s) (lookup_keys w s) cs in
      if list_ex (\<lambda>j. title j = None) (new_jobs s @ map job_of F) then Inl IntegrityError
      else Inr (flushed w s (new_jobs s @ map job_of F) rs, n + length F))"
proof (induction cs arbitrary: s n)
  case Nil
  then show ?case
    by (simp add: loop_then_flush_def flush_def flushed_def)
next
  case (Cons c cs)
  show ?case
  proof (cases "autoflush s")
    case False
    have q: "query_first w s (candidate_key c) =
             Inr (s, find (\<lambda>r. job_key r = candidate_key c) (jobs w @ tx_jobs s))"
      using False by (simp add: query_first_def)
    show ?thesis
    proof (cases "find (\<lambda>r. job_key r = candidate_key c) (jobs w @ tx_jobs s)")
      case None
      then have notin: "candidate_key c \<notin> set (lookup_keys w s)"
        using False by (simp only: find_key_iff lookup_keys_def) simp
      have step: "loop_then_flush w (c # cs) s n rs =
                  loop_then_flush w cs (add_job (job_of c) s) (n + 1) rs"
        by (simp add: loop_then_flush_def q None)
      have lk: "lookup_keys w (add_job (job_of c) s) = lookup_keys w s"
        using False by (simp add: lookup_keys_def add_job_def)
      have nr: "new_runs (add_job (job_of c) s) = []"
        using Cons.prems by (simp add: add_job_def)
      show ?thesis
        unfolding step Cons.IH [OF nr] lk
        using notin False by (simp add: add_job_def flushed_def Let_def)
    next
      case (Some r)
      then have isin: "candidate_key c \<in> set (lookup_keys w s)"
        using False find_key_iff [of "candidate_key c" "jobs w @ tx_jobs s"]
        by (simp add: lookup_keys_def)
      have step: "loop_then_flush w (c # cs) s n rs = loop_then_flush w cs s n rs"
        by (simp add: loop_then_flush_def q Some)
      show ?thesis
        unfolding step Cons.IH [OF Cons.prems]
        using isin by simp
    qed
  next
    case True
    have fl: "flush w s =
              (if list_ex (\<lambda>j. title j = None) (new_jobs s) then Inl IntegrityError
               else Inr (flushed w s (new_jobs s) []))"
      using Cons.prems by (simp add: flush_def flushed_def)
    show ?thesis
    proof (cases "list_ex (\<lambda>j. title j = None) (new_jobs s)")
      case bad: True
      then have "query_first w s (candidate_key c) = Inl IntegrityError"
        using True by (simp add: query_first_def fl)
      then have "loop_then_flush w (c # cs) s n rs = Inl IntegrityError"
        by (simp add: loop_then_flush_def)
      then show ?thesis using bad by (simp add: Let_def)
    next
      case ok: False
      define s1 where "s1 = flushed w s (new_jobs s) []"
      have s1: "autoflush s1" "new_runs s1 = []" "new_jobs s1 = []"
        "tx_jobs s1 = tx_jobs s @ insert_jobs (now w) (jobs w @ tx_jobs s) (new_jobs s)"
        "tx_runs s1 = tx_runs s"
        using True by (simp_all add: s1_def flushed_def)
      have lk1: "map job_key (jobs w @ tx_jobs s1) = lookup_keys w s"
        using True by (simp add: s1 lookup_keys_def)
      have q: "query_first w s (candidate_key c) =
               Inr (s1, find (\<lambda>r. job_key r = candidate_key c) (jobs w @ tx_jobs s1))"
        using True ok by (simp add: query_first_def fl s1_def)
      show ?thesis
      proof (cases "find (\<lambda>r. job_key r = candidate_key c) (jobs w @ tx_jobs s1)")
        case None
        then have notin: "candidate_key c \<notin> set (lookup_keys w s)"
          unfolding find_key_iff lk1 .
        define s2 where "s2 = add_job (job_of c) s1"
        have step: "loop_then_flush w (c # cs) s n rs = loop_then_flush w cs s2 (n + 1) rs"
          by (simp add: loop_then_flush_def q None s2_def)
        have s2: "autoflush s2" "new_runs s2 = []" "new_jobs s2 = [job_of c]"
          "tx_jobs s2 = tx_jobs s1" "tx_runs s2 = tx_runs s"
          using s1 by (simp_all add: s2_def add_job_def)
        have lk2: "lookup_keys w s2 = lookup_keys w s @ [candidate_key c]"
          using lk1 by (simp add: lookup_keys_def s2)
        have fl2: "flushed w s2 (job_of c # js) rs = flushed w s (new_jobs s @ job_of c # js) rs" for js
          by (simp add: flushed_def s2 s1 insert_jobs_append s2_def add_job_def s1_def)
        show ?thesis
          unfolding step Cons.IH [OF s2(2)]
          using notin True ok s2(1) by (simp add: lk2 s2(3) fl2 Let_def)
      next
        case (Some r)
        then have isin: "candidate_key c \<in> set (lookup_keys w s)"
          using find_key_iff [of "candidate_key c" "jobs w @ tx_jobs s1"]
          unfolding lk1 by simp
        have step: "loop_then_flush w (c # cs) s n rs = loop_then_flush w cs s1 n rs"
          by (simp add: loop_then_flush_def q Some)
        have lk: "lookup_keys w s1 = lookup_keys w s"
          using lk1 by (simp add: lookup_keys_def s1)
        have fl1: "flushed w s1 js rs = flushed w s (new_jobs s @ js) rs" for js
          by (simp add: flushed_def s1 insert_jobs_append s1_def)
        show ?thesis
          unfolding step Cons.IH [OF s1(2)]
          using isin True ok s1(1) by (simp add: lk s1(3) fl1 Let_def)
      qed
    qed
  qed
qed

lemma cycle_closed:
  assumes "\<not> key_missing cfg" and "provider_reply env = Reply st (Json d)"
  shows "serpapi_job af cfg env w =
     (let w1 = w\<lparr>requests_sent := requests_sent w @ [params cfg], now := now w + latency env\<rparr>;
          F = fresh af (map job_key (jobs w)) (jobs_results d)
      in if list_ex (\<lambda>c. r_title c = None) F then (Inl IntegrityError, w1)
         else if commit_ok env
         then (Inr (),
               w1\<lparr>jobs := jobs w @ insert_jobs (now w1) (jobs w) (map job_of F),
                  scheduled_runs := scheduled_runs w @
                    insert_runs (now w1) (scheduled_runs w) [ScheduledRun (now w1) 1 1],
                  logged := logged w @ [Info_saved (length F)]\<rparr>)
         else (Inl CommitError, w1))"
proof -
  define w1 where "w1 = w\<lparr>requests_sent := requests_sent w @ [params cfg], now := now w + latency env\<rparr>"
  define s0 where "s0 = SessionLocal af"
  define run where "run = ScheduledRun (now w1) 1 1"
  define F where "F = fresh af (map job_key (jobs w)) (jobs_results d)"
  have s0: "new_runs s0 = []" "new_jobs s0 = []" "autoflush s0 = af" "tx_jobs s0 = []" "tx_runs s0 = []"
    by (simp_all add: s0_def SessionLocal_def)
  have lk: "lookup_keys w1 s0 = map job_key (jobs w)"
    by (simp add: lookup_keys_def s0 w1_def)
  have ltf: "loop_then_flush w1 (jobs_results d) s0 0 [run] =
        (if list_ex (\<lambda>j. title j = None) (map job_of F) then Inl IntegrityError
         else Inr (flushed w1 s0 (map job_of F) [run], length F))"
    using loop_then_flush_closed [OF s0(1), of w1 "jobs_results d" 0 "[run]"]
    by (simp add: lk s0 F_def Let_def)
  have ex: "list_ex (\<lambda>j. title j = None) (map job_of F) = list_ex (\<lambda>c. r_title c = None) F"
    by (simp add: list_ex_iff)
  have rg: "requests_get (params cfg) env w = (Inr (st, Json d), w1)"
    using assms(2) by (simp add: requests_get_def w1_def)
  have fetch: "fetch_and_store_jobs cfg env s0 w =
      (case store_loop w1 (jobs_results d) s0 0 of
         Inl e \<Rightarrow> (Inl e, s0, w1)
       | Inr (db1, saved) \<Rightarrow>
           (case commit (commit_ok env) w1 (add_run run db1) of
              Inl e \<Rightarrow> (Inl e, add_run run db1, w1)
            | Inr (db3, w2) \<Rightarrow> (Inr (), db3, w2\<lparr>logged := logged w2 @ [Info_saved saved]\<rparr>)))"
    using assms(1)
    by (simp add: fetch_and_store_jobs_def rg json_def run_def Let_def split: sum.splits prod.splits)
  have sj: "serpapi_job af cfg env w =
      (case fetch_and_store_jobs cfg env s0 w of (r, db, w') \<Rightarrow> (r, w'))"
    by (simp add: serpapi_job_def s0_def)
  have main: "serpapi_job af cfg env w =
      (if list_ex (\<lambda>c. r_title c = None) F then (Inl IntegrityError, w1)
       else if commit_ok env
       then (Inr (),
             w1\<lparr>jobs := jobs w1 @ insert_jobs (now w1) (jobs w1) (map job_of F),
                scheduled_runs := scheduled_runs w1 @
                  insert_runs (now w1) (scheduled_runs w1) [run],
                logged := logged w1 @ [Info_saved (length F)]\<rparr>)
       else (Inl CommitError, w1))"
  proof (cases "store_loop w1 (jobs_results d) s0 0")
    case (Inl e)
    then have "loop_then_flush w1 (jobs_results d) s0 0 [run] = Inl e"
      by (simp add: loop_then_flush_def)
    with ltf have "e = IntegrityError" "list_ex (\<lambda>c. r_title c = None) F"
      unfolding ex by (auto split: if_splits)
    then show ?thesis
      unfolding sj fetch Inl by simp
  next
    case (Inr p)
    obtain db1 saved where p: "p = (db1, saved)" by (cases p)
    have fl: "(case flush w1 (add_run run db1) of Inl e \<Rightarrow> Inl e | Inr s'' \<Rightarrow> Inr (s'', saved)) =
          (if list_ex (\<lambda>c. r_title c = None) F then Inl IntegrityError
           else Inr (flushed w1 s0 (map job_of F) [run], length F))"
      using ltf Inr unfolding ex by (simp add: loop_then_flush_def p add_run_def)
    show ?thesis
    proof (cases "list_ex (\<lambda>c. r_title c = None) F")
      case True
      with fl have "flush w1 (add_run run db1) = Inl IntegrityError"
        by (auto split: sum.splits)
      then have "commit (commit_ok env) w1 (add_run run db1) = Inl IntegrityError"
        by (simp add: commit_def)
      then show ?thesis
        unfolding sj fetch Inr p using True by simp
    next
      case False
      with fl have f2: "flush w1 (add_run run db1) = Inr (flushed w1 s0 (map job_of F) [run])"
        and sv: "saved = length F"
        by (auto split: sum.splits)
      have cm: "commit (commit_ok env) w1 (add_run run db1) =
          (if commit_ok env
           then Inr ((flushed w1 s0 (map job_of F) [run])\<lparr>tx_jobs := [], tx_runs := []\<rparr>,
                     w1\<lparr>jobs := jobs w1 @ insert_jobs (now w1) (jobs w1) (map job_of F),
                        scheduled_runs := scheduled_runs w1 @
                          insert_runs (now w1) (scheduled_runs w1) [run]\<rparr>)
           else Inl CommitError)"
        by (simp add: commit_def f2 flushed_def s0)
      show ?thesis
        unfolding sj fetch Inr p using False by (simp add: cm sv)
    qed
  qed
  show ?thesis
    unfolding main by (simp add: w1_def F_def run_def Let_def)
qed



section \<open>Lemmas on the candidates a cycle adds\<close>

lemma fresh_subset: "c \<in> set (fresh af seen cs) \<Longrightarrow> c \<in> set cs"
  by (induction cs arbitrary: seen) (auto split: if_splits)

lemma fresh_not_seen: "c \<in> set (fresh af seen cs) \<Longrightarrow> candidate_key c \<notin> set seen"
  by (induction af seen cs rule: fresh.induct) (auto split: if_splits)

lemma fresh_covers:
  "c \<in> set cs \<Longrightarrow>
   candidate_key c \<in> set seen \<or> candidate_key c \<in> candidate_key ` set (fresh af seen cs)"
proof (induction cs arbitrary: seen)
  case Nil
  then show ?case by simp
next
  case (Cons x xs)
  show ?case
  proof (cases "c = x")
    case True
    then show ?thesis by simp
  next
    case False
    with Cons.prems have cin: "c \<in> set xs" by simp
    show ?thesis
    proof (cases "candidate_key x \<in> set seen")
      case True
      then show ?thesis using Cons.IH [OF cin, of seen] by simp
    next
      case notin: False
      show ?thesis
      proof (cases af)
        case True
        from Cons.IH [OF cin, of "seen @ [candidate_key x]"] notin True
        show ?thesis by auto
      next
        case False
        from Cons.IH [OF cin, of seen] notin False
        show ?thesis by auto
      qed
    qed
  qed
qed

lemma fresh_all_seen: "(\<And>c. c \<in> set cs \<Longrightarrow> candidate_key c \<in> set seen) \<Longrightarrow> fresh af seen cs = []"
  by (induction cs) auto

lemma fresh_off: "fresh False seen cs = filter (\<lambda>c. candidate_key c \<notin> set seen) cs"
  by (induction cs) auto

lemma fresh_on_distinct: "distinct (map candidate_key (fresh True seen cs))"
proof (induction cs arbitrary: seen)
  case Nil
  then show ?case by simp
next
  case (Cons x xs)
  have "candidate_key x \<notin> candidate_key ` set (fresh True (seen @ [candidate_key x]) xs)"
  proof
    assume "candidate_key x \<in> candidate_key ` set (fresh True (seen @ [candidate_key x]) xs)"
    then obtain c where c: "c \<in> set (fresh True (seen @ [candidate_key x]) xs)"
      and k: "candidate_key c = candidate_key x" by auto
    from fresh_not_seen [OF c] k show False by simp
  qed
  with Cons.IH show ?case by simp
qed

lemma fresh_distinct:
  "af \<or> distinct (map candidate_key cs) \<Longrightarrow> distinct (map candidate_key (fresh af seen cs))"
  by (cases af) (simp_all add: fresh_on_distinct fresh_off distinct_map_filter)

lemma set_insert_jobs:
  "r \<in> set (insert_jobs t rows js) \<Longrightarrow> \<exists>j\<in>set js. \<exists>n. r = stored_job t n j"
  by (induction js arbitrary: rows) (auto simp: Let_def)

section \<open>The outcome of a cycle\<close>

lemma cycle_no_key:
  "key_missing cfg \<Longrightarrow>
   serpapi_job af cfg env w = (Inr (), w\<lparr>logged := logged w @ [Warning_key_not_set]\<rparr>)"
  by (simp add: serpapi_job_def fetch_and_store_jobs_def)

lemma cycle_no_reply:
  "\<not> key_missing cfg \<Longrightarrow> provider_reply env = NoReply e \<Longrightarrow>
   serpapi_job af cfg env w =
     (Inl (RequestException e),
      w\<lparr>requests_sent := requests_sent w @ [params cfg], now := now w + latency env\<rparr>)"
  by (simp add: serpapi_job_def fetch_and_store_jobs_def requests_get_def)

lemma cycle_not_json:
  "\<not> key_missing cfg \<Longrightarrow> provider_reply env = Reply st NotJson \<Longrightarrow>
   serpapi_job af cfg env w =
     (Inl JSONDecodeError,
      w\<lparr>requests_sent := requests_sent w @ [params cfg], now := now w + latency env\<rparr>)"
  by (simp add: serpapi_job_def fetch_and_store_jobs_def requests_get_def json_def)

lemma jobs_after_cycle:
  "jobs (snd (serpapi_job af cfg env w)) =
     (if commits af cfg env w
      then jobs w @ insert_jobs (now w + latency env) (jobs w)
             (map job_of (fresh af (map job_key (jobs w)) (reply_candidates (provider_reply env))))
      else jobs w)"
proof (cases "key_missing cfg")
  case True
  then show ?thesis by (simp add: cycle_no_key commits_def is_json_def)
next
  case False
  show ?thesis
  proof (cases "provider_reply env")
    case (NoReply e)
    then show ?thesis using False by (simp add: cycle_no_reply commits_def is_json_def)
  next
    case (Reply st b)
    show ?thesis
    proof (cases b)
      case NotJson
      then show ?thesis using False Reply by (simp add: cycle_not_json commits_def is_json_def)
    next
      case (Json d)
      then show ?thesis
        using False Reply
        by (simp add: cycle_closed [OF False, of env st d] commits_def is_json_def reply_candidates_def Let_def)
    qed
  qed
qed

lemma keys_after_commit:
  "map job_key (jobs w @ insert_jobs t (jobs w) (map job_of F)) =
   map job_key (jobs w) @ map candidate_key F"
  by simp

lemma cycle_success:
  assumes "serpapi_job af cfg env w = (Inr (), w')" and "\<not> key_missing cfg"
  shows "commits af cfg env w"
    and "w' = w\<lparr>requests_sent := requests_sent w @ [params cfg],
                 now := now w + latency env,
                 jobs := jobs w @ insert_jobs (now w + latency env) (jobs w)
                   (map job_of (fresh af (map job_key (jobs w)) (reply_candidates (provider_reply env)))),
                 scheduled_runs := scheduled_runs w @
                   insert_runs (now w + latency env) (scheduled_runs w)
                     [ScheduledRun (now w + latency env) 1 1],
                 logged := logged w @
                   [Info_saved (length (fresh af (map job_key (jobs w)) (reply_candidates (provider_reply env))))]\<rparr>"
proof -
  have js: "\<exists>st d. provider_reply env = Reply st (Json d)"
  proof (cases "provider_reply env")
    case (NoReply e)
    with assms show ?thesis by (simp add: cycle_no_reply)
  next
    case (Reply st b)
    with assms show ?thesis by (cases b) (simp_all add: cycle_not_json)
  qed
  then obtain st d where r: "provider_reply env = Reply st (Json d)" by blast
  from assms(1) show "commits af cfg env w"
    unfolding cycle_closed [OF assms(2) r]
    using assms(2) r by (simp add: commits_def is_json_def reply_candidates_def Let_def split: if_splits)
  from assms(1) show "w' = w\<lparr>requests_sent := requests_sent w @ [params cfg],
                 now := now w + latency env,
                 jobs := jobs w @ insert_jobs (now w + latency env) (jobs w)
                   (map job_of (fresh af (map job_key (jobs w)) (reply_candidates (provider_reply env)))),
                 scheduled_runs := scheduled_runs w @
                   insert_runs (now w + latency env) (scheduled_runs w)
                     [ScheduledRun (now w + latency env) 1 1],
                 logged := logged w @
                   [Info_saved (length (fresh af (map job_key (jobs w)) (reply_candidates (provider_reply env))))]\<rparr>"
    unfolding cycle_closed [OF assms(2) r]
    using r by (simp add: reply_candidates_def Let_def split: if_splits)
qed

lemma dedup_invariant_iff:
  "dedup_invariant js \<longleftrightarrow>
   (\<forall>i<length js. \<forall>j<length js. job_key (js ! i) = job_key (js ! j) \<longrightarrow> i = j)"
  unfolding dedup_invariant_def distinct_conv_nth by (auto simp: nth_map)

lemma filter_distinct_one:
  "distinct xs \<Longrightarrow> x \<in> set xs \<Longrightarrow> length (filter (\<lambda>y. y = x) xs) = 1"
  by (induction xs) (auto simp: filter_empty_conv)

lemma length_filter_key:
  "length (filter (\<lambda>r. f r = k) xs) = length (filter (\<lambda>y. y = k) (map f xs))"
  by (induction xs) auto

section \<open>Lemmas on the title filter\<close>

lemmas lower_defs = lower_def lower_char_def ascii_uppercase_def ascii_lowercase_def


lemma lower_char_idem [simp]: "lower_char (lower_char c) = lower_char c"
  by (cases "c \<in> set ascii_uppercase") (auto simp: lower_defs)


lemma lower_Nil [simp]: "lower [] = []"
  by (simp add: lower_def)


lemma lower_idem [simp]: "lower (lower s) = lower s"
  by (simp add: lower_def)


lemma lower_char_percent [simp]: "lower_char c = CHR ''%'' \<longleftrightarrow> c = CHR ''%''"
  by (cases "c \<in> set ascii_uppercase") (auto simp: lower_defs)


lemma lower_char_underscore [simp]: "lower_char c = CHR ''_'' \<longleftrightarrow> c = CHR ''_''"
  by (cases "c \<in> set ascii_uppercase") (auto simp: lower_defs)


lemma wildcard_free_lower [simp]: "wildcard_free (lower q) \<longleftrightarrow> wildcard_free q"
proof -
  have "CHR ''%'' \<in> set (map lower_char q) \<longleftrightarrow> CHR ''%'' \<in> set q"
    by (induction q) (simp_all add: eq_commute [of "CHR ''%''"])
  moreover have "CHR ''_'' \<in> set (map lower_char q) \<longleftrightarrow> CHR ''_'' \<in> set q"
    by (induction q) (simp_all add: eq_commute [of "CHR ''_''"])
  ultimately show ?thesis
    by (simp only: wildcard_free_def lower_def)
qed

lemma like_percent_all [simp]: "like ''%'' s"
  by (induction s) simp_all


lemma like_percent:
  "like (CHR ''%'' # ps) s \<longleftrightarrow> (\<exists>u v. s = u @ v \<and> like ps v)"
proof (induction s)
  case Nil
  then show ?case by simp
next
  case (Cons c s)
  show ?case
  proof
    assume "like (CHR ''%'' # ps) (c # s)"
    then consider "like ps (c # s)" | "like (CHR ''%'' # ps) s" by auto
    then show "\<exists>u v. c # s = u @ v \<and> like ps v"
    proof cases
      case 1
      then have "c # s = [] @ (c # s) \<and> like ps (c # s)" by simp
      then show ?thesis by blast
    next
      case 2
      with Cons.IH obtain u v where "s = u @ v" "like ps v" by blast
      then have "c # s = (c # u) @ v \<and> like ps v" by simp
      then show ?thesis by blast
    qed
  next
    assume "\<exists>u v. c # s = u @ v \<and> like ps v"
    then obtain u v where uv: "c # s = u @ v" "like ps v" by blast
    show "like (CHR ''%'' # ps) (c # s)"
    proof (cases u)
      case Nil
      with uv have "like ps (c # s)" by simp
      then show ?thesis by simp
    next
      case (Cons a u')
      with uv have "s = u' @ v" by simp
      with uv(2) Cons.IH have "like (CHR ''%'' # ps) s" by blast
      then show ?thesis by simp
    qed
  qed
qed

lemma lower_Cons [simp]: "lower (c # s) = lower_char c # lower s"
  by (simp add: lower_def)

lemma lower_append [simp]: "lower (u @ v) = lower u @ lower v"
  by (simp add: lower_def)

lemma like_prefix:
  "wildcard_free q \<Longrightarrow> like (q @ ''%'') s \<longleftrightarrow> prefix (lower q) (lower s)"
proof (induction q arbitrary: s)
  case Nil
  then show ?case by simp
next
  case (Cons p q)
  from Cons.prems have wf: "wildcard_free q" and p: "p \<noteq> CHR ''%''" "p \<noteq> CHR ''_''"
    by (auto simp: wildcard_free_def)
  show ?case
  proof (cases s)
    case Nil
    then show ?thesis using p by simp
  next
    case s: (Cons c s')
    have "like ((p # q) @ ''%'') (c # s') \<longleftrightarrow>
          lower_char p = lower_char c \<and> like (q @ ''%'') s'"
      using p by simp
    also have "\<dots> \<longleftrightarrow> lower_char p = lower_char c \<and> prefix (lower q) (lower s')"
      by (simp only: Cons.IH [OF wf])
    also have "\<dots> \<longleftrightarrow> prefix (lower (p # q)) (lower (c # s'))"
      by simp
    finally show ?thesis by (simp only: s)
  qed
qed


lemma sublist_lower:
  "sublist (lower q) (lower t) \<longleftrightarrow> (\<exists>u v. t = u @ v \<and> prefix (lower q) (lower v))"
proof
  assume "sublist (lower q) (lower t)"
  then obtain ps ss where e: "lower t = ps @ lower q @ ss"
    unfolding sublist_def by (elim exE)
  define u where "u = take (length ps) t"
  define v where "v = drop (length ps) t"
  have t: "t = u @ v" by (simp add: u_def v_def)
  have "lower v = drop (length ps) (lower t)"
    by (simp add: v_def lower_def drop_map)
  also have "\<dots> = lower q @ ss" by (simp add: e)
  finally have "prefix (lower q) (lower v)" by (simp only: prefixI)
  with t show "\<exists>u v. t = u @ v \<and> prefix (lower q) (lower v)" by (intro exI conjI)
next
  assume "\<exists>u v. t = u @ v \<and> prefix (lower q) (lower v)"
  then obtain u v where t: "t = u @ v" and pv: "prefix (lower q) (lower v)"
    by (elim exE conjE)
  from pv obtain ss where "lower v = lower q @ ss" by (rule prefixE)
  with t have "lower t = lower u @ lower q @ ss" by simp
  then show "sublist (lower q) (lower t)" unfolding sublist_def by (intro exI)
qed

lemma title_filter_substring:
  assumes "wildcard_free q"
  shows "title_filter (lower q) j = ci_substring q (title j)"
proof (cases "title j")
  case None
  then show ?thesis by (simp add: title_filter_def ilike_def ci_substring_def)
next
  case (Some t)
  have "like (CHR ''%'' # lower q @ ''%'') t \<longleftrightarrow>
        (\<exists>u v. t = u @ v \<and> prefix (lower (lower q)) (lower v))"
    unfolding like_percent using like_prefix [of "lower q"] assms by simp
  then show ?thesis
    using Some by (simp add: title_filter_def ilike_def ci_substring_def sublist_lower)
qed


lemma lower_engineer:
  assumes "lower q = ''engineer''"
  shows "wildcard_free q" and "q \<noteq> []"
proof -
  have "wildcard_free (lower q)" unfolding assms by (simp add: wildcard_free_def)
  then show "wildcard_free q" by simp
  show "q \<noteq> []"
  proof
    assume "q = []"
    then have "lower q = []" by (simp add: lower_def)
    with assms show False by simp
  qed
qed

lemma lower_backend: "lower ''Backend Engineer'' = ''backend engineer''"
  by (simp add: lower_defs)


lemma lower_analyst: "lower ''Data Analyst'' = ''data analyst''"
  by (simp add: lower_defs)


lemma engineer_in_backend: "sublist ''engineer'' ''backend engineer''"
proof -
  have "''backend engineer'' = ''backend '' @ ''engineer'' @ []" by simp
  then show ?thesis unfolding sublist_def by blast
qed


lemma engineer_not_in_analyst: "\<not> sublist ''engineer'' ''data analyst''"
  by (simp add: sublist_Cons_right prefix_Cons)


lemma ascii_titles_filter: "ascii_titles js \<Longrightarrow> ascii_titles (filter P js)"
  by (induction js) (simp_all add: ascii_titles_def)

lemma list_jobs_filtered:
  assumes "wildcard_free q" and "q \<noteq> []" and "ascii_text q" and "ascii_titles (jobs w)"
  shows "list_jobs \<lparr>arg_q = Some q, arg_page = p, arg_limit = l\<rparr> w =
         list_jobs \<lparr>arg_q = None, arg_page = p, arg_limit = l\<rparr>
           (w\<lparr>jobs := filter (\<lambda>j. ci_substring q (title j)) (jobs w)\<rparr>)"
proof -
  have ne: "lower q \<noteq> []" using assms(2) by (simp add: lower_def)
  have f: "filter (title_filter (lower q)) (jobs w) = filter (\<lambda>j. ci_substring q (title j)) (jobs w)"
    by (rule filter_cong) (simp_all add: title_filter_substring [OF assms(1)])
  show ?thesis
    unfolding list_jobs_def using assms(3,4) by (simp add: ne f Let_def)
qed

lemma list_jobs_empty_text:
  assumes "\<forall>j\<in>set (jobs w). title j \<noteq> None"
  shows "list_jobs \<lparr>arg_q = Some [], arg_page = p, arg_limit = l\<rparr> w =
         list_jobs \<lparr>arg_q = None, arg_page = p, arg_limit = l\<rparr>
           (w\<lparr>jobs := filter (\<lambda>j. ci_substring [] (title j)) (jobs w)\<rparr>)"
proof -
  have "ci_substring [] (title j)" if "j \<in> set (jobs w)" for j
  proof -
    from assms that have "title j \<noteq> None" by blast
    then obtain t where "title j = Some t" by (cases "title j") simp_all
    then show ?thesis by (simp add: ci_substring_def)
  qed
  then have "filter (\<lambda>j. ci_substring [] (title j)) (jobs w) = jobs w"
    by (simp add: filter_id_conv)
  then show ?thesis
    by (simp add: list_jobs_def Let_def)
qed

text \<open>
  On ASCII text without the pattern characters the filter is the substring match of
  the spec, letter case aside; so is its example: the two listings, and \<open>engineer\<close> in
  any letter case.
\<close>

lemma engineer_any_case:
  assumes e: "lower q = ''engineer''" and q: "ascii_text q"
    and b: "title be = Some ''Backend Engineer''" and a: "title da = Some ''Data Analyst''"
  shows "list_jobs (query q) (w\<lparr>jobs := [be, da]\<rparr>)
           = Some \<lparr>data = [item_of be], total = 1, page = 1\<rparr>"
    and "list_jobs (query q) (w\<lparr>jobs := [da, be]\<rparr>)
           = Some \<lparr>data = [item_of be], total = 1, page = 1\<rparr>"
proof -
  have yes: "ci_substring q (title be)"
    unfolding ci_substring_def b option.case e lower_backend by (rule engineer_in_backend)
  have no: "\<not> ci_substring q (title da)"
    unfolding ci_substring_def a option.case e lower_analyst by (rule engineer_not_in_analyst)
  have plain: "list_jobs \<lparr>arg_q = None, arg_page = None, arg_limit = None\<rparr> (v\<lparr>jobs := [be]\<rparr>)
      = Some \<lparr>data = [item_of be], total = 1, page = 1\<rparr>" for v
    by (simp add: list_jobs_def order_by_created_desc_def Let_def)
  have t1: "ascii_titles (jobs (w\<lparr>jobs := [be, da]\<rparr>))"
    and t2: "ascii_titles (jobs (w\<lparr>jobs := [da, be]\<rparr>))"
    by (simp_all add: ascii_titles_def ascii_text_def a b)
  note wf = lower_engineer [OF e]
  show "list_jobs (query q) (w\<lparr>jobs := [be, da]\<rparr>)
           = Some \<lparr>data = [item_of be], total = 1, page = 1\<rparr>"
    unfolding query_def list_jobs_filtered [OF wf q t1]
    using yes no by (simp add: plain)
  show "list_jobs (query q) (w\<lparr>jobs := [da, be]\<rparr>)
           = Some \<lparr>data = [item_of be], total = 1, page = 1\<rparr>"
    unfolding query_def list_jobs_filtered [OF wf q t2]
    using yes no by (simp add: plain)
qed

section \<open>Lemmas on replies of any JSON shape\<close>

lemma json_key_as_json [simp]: "json_key (as_json c) = candidate_key c"
  by (simp add: json_key_def as_json_def candidate_key_def)

lemma job_of_json_as_json [simp]: "job_of_json (as_json c) = Inr (job_of c)"
  by (cases "r_detected_extensions c") (simp_all add: job_of_json_def as_json_def job_of_def)

lemma store_loop_json_contract:
  "store_loop_json w (map (\<lambda>c. ResultObject (as_json c)) cs) s n = store_loop w cs s n"
proof (induction cs arbitrary: s n)
  case Nil
  show ?case by simp
next
  case (Cons c cs)
  show ?case
    by (simp add: Cons.IH split: sum.splits prod.splits option.splits)
qed

lemma serpapi_job_json_contract:
  "serpapi_job_json af cfg (json_of_environment env) w = serpapi_job af cfg env w"
proof (cases "key_missing cfg")
  case True
  then show ?thesis
    by (simp add: serpapi_job_json_def serpapi_job_def fetch_and_store_jobs_json_def
        fetch_and_store_jobs_def)
next
  case False
  show ?thesis
  proof (cases "provider_reply env")
    case (NoReply e)
    with False show ?thesis
      by (simp add: serpapi_job_json_def serpapi_job_def fetch_and_store_jobs_json_def
          fetch_and_store_jobs_def requests_get_json_def requests_get_def
          json_of_environment_def json_of_reply_def)
  next
    case (Reply st b)
    show ?thesis
    proof (cases b)
      case NotJson
      with False Reply show ?thesis
        by (simp add: serpapi_job_json_def serpapi_job_def fetch_and_store_jobs_json_def
            fetch_and_store_jobs_def requests_get_json_def requests_get_def
            json_of_environment_def json_of_reply_def json_of_body_def r_json_def json_def)
    next
      case (Json d)
      show ?thesis
      proof (cases d)
        case None
        with False Reply Json show ?thesis
          by (simp add: serpapi_job_json_def serpapi_job_def fetch_and_store_jobs_json_def
              fetch_and_store_jobs_def requests_get_json_def requests_get_def
              json_of_environment_def json_of_reply_def json_of_body_def r_json_def json_def
              get_jobs_results_def iterate_def jobs_results_def
              split: sum.splits prod.splits)
      next
        case (Some cs)
        with False Reply Json show ?thesis
          by (simp add: serpapi_job_json_def serpapi_job_def fetch_and_store_jobs_json_def
              fetch_and_store_jobs_def requests_get_json_def requests_get_def
              json_of_environment_def json_of_reply_def json_of_body_def r_json_def json_def
              get_jobs_results_def iterate_def jobs_results_def store_loop_json_contract
              split: sum.splits prod.splits)
      qed
    qed
  qed
qed

lemma flush_titled:
  "titled_pending s \<Longrightarrow>
   \<exists>s'. flush w s = Inr s' \<and> new_jobs s' = [] \<and> new_runs s' = [] \<and> autoflush s' = autoflush s"
  by (simp add: titled_pending_def flush_def)

lemma query_first_titled:
  assumes "titled_pending s"
  shows "\<exists>s' r. query_first w s k = Inr (s', r) \<and> titled_pending s'"
proof (cases "autoflush s")
  case True
  from flush_titled [OF assms, of w] obtain s' where "flush w s = Inr s'" "new_jobs s' = []"
    by blast
  with True show ?thesis by (simp add: query_first_def titled_pending_def)
next
  case False
  with assms show ?thesis by (simp add: query_first_def)
qed

lemma job_of_json_contract:
  assumes "j_detected_extensions c \<noteq> ExtensionsOther"
  shows "\<exists>j. job_of_json c = Inr j \<and> title j = j_title c"
  using assms by (cases "j_detected_extensions c") (simp_all add: job_of_json_def Job_def)

lemma store_loop_json_titled:
  assumes "list_all contract_element xs" and "list_all titled_element xs" and "titled_pending s"
  shows "\<exists>s' n'. store_loop_json w xs s n = Inr (s', n') \<and> titled_pending s'"
  using assms
proof (induction xs arbitrary: s n)
  case Nil
  then show ?case by simp
next
  case (Cons x xs)
  from Cons.prems(1) obtain c where x: "x = ResultObject c"
    and ext: "j_detected_extensions c \<noteq> ExtensionsOther"
    by (cases x) (simp_all add: contract_element_def)
  from Cons.prems(2) x have t: "j_title c \<noteq> None" by (simp add: titled_element_def)
  from Cons.prems have rest: "list_all contract_element xs" "list_all titled_element xs"
    by simp_all
  from query_first_titled [OF Cons.prems(3), of w "json_key c"]
  obtain s1 r where q: "query_first w s (json_key c) = Inr (s1, r)" and t1: "titled_pending s1"
    by blast
  show ?case
  proof (cases r)
    case (Some row)
    from Cons.IH [OF rest t1, of n] show ?thesis
      by (simp add: x q Some)
  next
    case None
    from job_of_json_contract [OF ext] obtain j where j: "job_of_json c = Inr j" "title j = j_title c"
      by blast
    have "titled_pending (add_job j s1)"
      using t1 t j(2) by (simp add: titled_pending_def add_job_def)
    from Cons.IH [OF rest this, of "n + 1"] show ?thesis
      by (simp add: x q None j(1))
  qed
qed

lemma contract_cycle_completes:
  assumes k: "\<not> key_missing cfg"
    and r: "json_provider_reply env = JsonReply st (BodyJson (DataObject rs))"
    and shape: "contract_shape rs" and titles: "all_titled rs"
  shows "fst (serpapi_job_json af cfg env w) =
         (if json_commit_ok env then Inr () else Inl CommitError)"
proof -
  define w1 where "w1 = w\<lparr>requests_sent := requests_sent w @ [params cfg],
                            now := now w + json_latency env\<rparr>"
  obtain xs where g: "get_jobs_results (DataObject rs) = Inr (ResultsArray xs)"
    and c: "list_all contract_element xs" and t: "list_all titled_element xs"
    using shape titles
    by (cases rs) (simp_all add: get_jobs_results_def contract_shape_def all_titled_def)
  have s0: "titled_pending (SessionLocal af)"
    by (simp add: titled_pending_def SessionLocal_def)
  from store_loop_json_titled [OF c t s0, of w1 0]
  obtain s1 n1 where l: "store_loop_json w1 xs (SessionLocal af) 0 = Inr (s1, n1)"
    and t1: "titled_pending s1" by blast
  have "titled_pending (add_run (ScheduledRun (now w1) 1 1) s1)"
    using t1 by (simp add: titled_pending_def add_run_def)
  from flush_titled [OF this, of w1]
  obtain s2 where f: "flush w1 (add_run (ScheduledRun (now w1) 1 1) s1) = Inr s2" by blast
  show ?thesis
    using k r
    by (simp add: serpapi_job_json_def fetch_and_store_jobs_json_def requests_get_json_def
        r_json_def g iterate_def w1_def [symmetric] l commit_def f Let_def)
qed

section \<open>Evaluating the examples\<close>

lemmas cycle_defs =
  serpapi_job_def fetch_and_store_jobs_def requests_get_def json_def jobs_results_def
  commit_def flush_def query_first_def add_job_def add_run_def SessionLocal_def
  key_missing_def params_def candidate_key_def job_of_def Job_def ScheduledRun_def
  job_key_def stored_job_def stored_run_def Let_def

lemmas example_defs =
  example_config_def unset_config_def posting_def untitled_def bare_def empty_world_def
  answers_def refuses_def times_out_def server_error_def three_postings_def
  repeated_postings_def mixed_postings_def titled_def two_listings_def query_def

lemmas json_cycle_defs =
  serpapi_job_json_def fetch_and_store_jobs_json_def requests_get_json_def r_json_def
  get_jobs_results_def iterate_def json_key_def job_of_json_def commit_def flush_def
  query_first_def add_job_def add_run_def SessionLocal_def key_missing_def params_def
  Job_def ScheduledRun_def job_key_def stored_job_def stored_run_def Let_def

lemmas json_example_defs =
  bare_json_def untitled_json_def null_extensions_json_def json_answers_def
  example_config_def empty_world_def titled_def two_listings_def

lemma example_key: "\<not> key_missing example_config"
  by (simp add: key_missing_def example_config_def)

section \<open>C1: running the cycle twice\<close>

text \<open>
  C1. For every provider response and every store, running the cycle and then running
  it again with the identical response leaves the jobs table after the second run equal
  to the jobs table after the first: the second run inserts nothing. The two runs may
  differ in the time the request takes and in whether the database accepts the COMMIT,
  with one proviso: a database that refuses the first COMMIT and accepts the second lets
  the second run do the work of the first.
\<close>

theorem ingestion_idempotent:
  assumes "provider_reply env2 = provider_reply env1"
    and "commit_ok env1 \<or> \<not> commit_ok env2"
  shows "jobs (snd (serpapi_job af cfg env2 (snd (serpapi_job af cfg env1 w)))) =
         jobs (snd (serpapi_job af cfg env1 w))"
proof -
  define w1 where "w1 = snd (serpapi_job af cfg env1 w)"
  define cs where "cs = reply_candidates (provider_reply env1)"
  define F where "F = fresh af (map job_key (jobs w)) cs"
  show ?thesis
  proof (cases "commits af cfg env1 w")
    case True
    then have j1: "jobs w1 = jobs w @ insert_jobs (now w + latency env1) (jobs w) (map job_of F)"
      by (simp add: w1_def jobs_after_cycle F_def cs_def)
    have "fresh af (map job_key (jobs w1)) cs = []"
    proof (rule fresh_all_seen)
      fix c assume "c \<in> set cs"
      from fresh_covers [OF this, of "map job_key (jobs w)" af]
      show "candidate_key c \<in> set (map job_key (jobs w1))"
        unfolding j1 keys_after_commit F_def by auto
    qed
    then have "jobs (snd (serpapi_job af cfg env2 w1)) = jobs w1"
      by (simp add: jobs_after_cycle assms(1) cs_def)
    then show ?thesis by (simp add: w1_def)
  next
    case False
    then have j1: "jobs w1 = jobs w"
      by (simp add: w1_def jobs_after_cycle)
    have "\<not> commits af cfg env2 w1"
      using False assms by (auto simp: commits_def j1)
    then have "jobs (snd (serpapi_job af cfg env2 w1)) = jobs w1"
      by (simp add: jobs_after_cycle)
    then show ?thesis by (simp add: w1_def)
  qed
qed

theorem ingestion_idempotent_witness:
  "provider_reply (answers three_postings) = provider_reply (answers three_postings)
   \<and> commit_ok (answers three_postings)
   \<and> jobs (twice True three_postings) = jobs (once True three_postings)
   \<and> map title (jobs (once True three_postings)) =
       [Some ''Backend Engineer'', Some ''Data Analyst'', Some ''Designer'']
   \<and> length (scheduled_runs (once True three_postings)) = 1
   \<and> length (scheduled_runs (twice True three_postings)) = 2"
proof -
  have c: "commit_ok (answers three_postings)"
    by (simp add: answers_def)
  have i: "jobs (twice True three_postings) = jobs (once True three_postings)"
    unfolding twice_def once_def using c by (intro ingestion_idempotent) simp_all
  have t: "map title (jobs (once True three_postings)) =
       [Some ''Backend Engineer'', Some ''Data Analyst'', Some ''Designer'']"
    by (simp add: once_def cycle_defs example_defs)
  have r1: "length (scheduled_runs (once True three_postings)) = 1"
    by (simp add: once_def cycle_defs example_defs)
  have r2: "length (scheduled_runs (twice True three_postings)) = 2"
    by (simp add: twice_def once_def cycle_defs example_defs)
  from c i t r1 r2 show ?thesis by simp
qed

section \<open>C2: lookup by key, then discard or insert\<close>

text \<open>
  C2 (as amended). On a successful fetch whose cycle then completes (every INSERT is
  accepted and the COMMIT succeeds), every listing the store held is still there,
  unchanged and in place (\<open>jobs w' = jobs w @ added\<close>). For every candidate of the
  response: if the store already held a listing with the same (title, company,
  location), no row with that key is added, whatever the candidate's other fields; if it
  held none, a row with that key is added. Every added row is the mapping of a candidate
  whose key the store did not hold, with a generated id and with its creation timestamp
  set to the current time.
\<close>

theorem dedup_on_insert:
  assumes "serpapi_job af cfg env w = (Inr (), w')"
    and "\<not> key_missing cfg"
    and "provider_reply env = Reply st (Json d)"
  shows "\<exists>added. jobs w' = jobs w @ added
       \<and> (\<forall>c\<in>set (jobs_results d).
            if candidate_key c \<in> job_key ` set (jobs w)
            then candidate_key c \<notin> job_key ` set added
            else candidate_key c \<in> job_key ` set added)
       \<and> (\<forall>r\<in>set added. \<exists>c\<in>set (jobs_results d). \<exists>n.
            candidate_key c \<notin> job_key ` set (jobs w) \<and>
            r = (job_of c)\<lparr>job_id := Some n, created_at := Some (now w')\<rparr>)
       \<and> now w' = now w + latency env"
proof -
  define F where "F = fresh af (map job_key (jobs w)) (jobs_results d)"
  define added where "added = insert_jobs (now w + latency env) (jobs w) (map job_of F)"
  have rc: "reply_candidates (provider_reply env) = jobs_results d"
    by (simp add: assms(3) reply_candidates_def)
  note w' = cycle_success(2) [OF assms(1,2), unfolded rc]
  have 1: "jobs w' = jobs w @ added" and t: "now w' = now w + latency env"
    by (simp_all add: w' added_def F_def)
  have keys: "job_key ` set added = candidate_key ` set F"
  proof -
    have "map job_key added = map candidate_key F" by (simp add: added_def)
    then have "set (map job_key added) = set (map candidate_key F)" by simp
    then show ?thesis by simp
  qed
  have 2: "if candidate_key c \<in> job_key ` set (jobs w)
           then candidate_key c \<notin> job_key ` set added
           else candidate_key c \<in> job_key ` set added" if "c \<in> set (jobs_results d)" for c
  proof (cases "candidate_key c \<in> job_key ` set (jobs w)")
    case True
    have "candidate_key c \<notin> candidate_key ` set F"
    proof
      assume "candidate_key c \<in> candidate_key ` set F"
      then obtain c' where "c' \<in> set F" "candidate_key c' = candidate_key c" by auto
      with fresh_not_seen [of c' af "map job_key (jobs w)" "jobs_results d"] True
      show False by (simp add: F_def)
    qed
    with True show ?thesis by (simp add: keys)
  next
    case False
    with fresh_covers [OF that, of "map job_key (jobs w)" af]
    show ?thesis by (simp add: keys F_def)
  qed
  have 3: "\<exists>c\<in>set (jobs_results d). \<exists>n.
            candidate_key c \<notin> job_key ` set (jobs w) \<and>
            r = (job_of c)\<lparr>job_id := Some n, created_at := Some (now w')\<rparr>" if "r \<in> set added" for r
  proof -
    from set_insert_jobs [OF that [unfolded added_def]]
    obtain c n where c: "c \<in> set F" and r: "r = stored_job (now w + latency env) n (job_of c)"
      by auto
    have "c \<in> set (jobs_results d)" using c fresh_subset by (simp add: F_def)
    moreover have "candidate_key c \<notin> job_key ` set (jobs w)"
      using fresh_not_seen [of c af "map job_key (jobs w)" "jobs_results d"] c by (simp add: F_def)
    moreover have "r = (job_of c)\<lparr>job_id := Some n, created_at := Some (now w')\<rparr>"
      by (simp add: r t stored_job_def job_of_def Job_def)
    ultimately show ?thesis by blast
  qed
  from 1 2 3 t show ?thesis by blast
qed

theorem dedup_on_insert_witness:
  "serpapi_job False example_config
     (answers [posting ''Backend Engineer'' ''changed'', posting ''Designer'' ''c''])
     two_listings = (Inr (), restocked)
   \<and> \<not> key_missing example_config
   \<and> provider_reply (answers [posting ''Backend Engineer'' ''changed'', posting ''Designer'' ''c''])
       = Reply 200 (Json (Some [posting ''Backend Engineer'' ''changed'', posting ''Designer'' ''c'']))
   \<and> (\<exists>added. jobs restocked = jobs two_listings @ added
       \<and> (\<forall>c\<in>set (jobs_results
                      (Some [posting ''Backend Engineer'' ''changed'', posting ''Designer'' ''c''])).
            if candidate_key c \<in> job_key ` set (jobs two_listings)
            then candidate_key c \<notin> job_key ` set added
            else candidate_key c \<in> job_key ` set added)
       \<and> (\<forall>r\<in>set added.
            \<exists>c\<in>set (jobs_results
                      (Some [posting ''Backend Engineer'' ''changed'', posting ''Designer'' ''c''])).
            \<exists>n. candidate_key c \<notin> job_key ` set (jobs two_listings) \<and>
                r = (job_of c)\<lparr>job_id := Some n, created_at := Some (now restocked)\<rparr>)
       \<and> now restocked = now two_listings
           + latency (answers [posting ''Backend Engineer'' ''changed'', posting ''Designer'' ''c'']))
   \<and> map description (jobs restocked) = [None, None, Some ''c'']
   \<and> map created_at (jobs restocked) = [Some 10, Some 20, Some 107]"
proof -
  have h1: "serpapi_job False example_config
     (answers [posting ''Backend Engineer'' ''changed'', posting ''Designer'' ''c''])
     two_listings = (Inr (), restocked)"
    by (simp add: restocked_def cycle_defs example_defs)
  have h3: "provider_reply (answers [posting ''Backend Engineer'' ''changed'', posting ''Designer'' ''c''])
       = Reply 200 (Json (Some [posting ''Backend Engineer'' ''changed'', posting ''Designer'' ''c'']))"
    by (simp add: answers_def)
  have d: "map description (jobs restocked) = [None, None, Some ''c'']"
    by (simp add: restocked_def cycle_defs example_defs)
  have t: "map created_at (jobs restocked) = [Some 10, Some 20, Some 107]"
    by (simp add: restocked_def cycle_defs example_defs)
  note c = dedup_on_insert [OF h1 example_key h3]
  show ?thesis
    by (rule conjI [OF h1 conjI [OF example_key conjI [OF h3 conjI [OF c conjI [OF d t]]]]])
qed

text \<open>
  The claim as stated speaks of every successful fetch. The listings of a cycle are
  committed together or not at all: in the reply below the fetch succeeds and the
  candidate \<open>Clerk\<close> has no match in the store, yet no listing is inserted, because
  the other candidate of the same reply has no title and its INSERT is rejected.
\<close>

theorem dedup_on_insert_counterexample:
  "provider_reply (answers [posting ''Clerk'' ''a'', untitled])
     = Reply 200 (Json (Some [posting ''Clerk'' ''a'', untitled]))
   \<and> candidate_key (posting ''Clerk'' ''a'') \<notin> job_key ` set (jobs empty_world)
   \<and> fst (serpapi_job True example_config (answers [posting ''Clerk'' ''a'', untitled]) empty_world)
       = Inl IntegrityError
   \<and> jobs (snd (serpapi_job True example_config (answers [posting ''Clerk'' ''a'', untitled]) empty_world))
       = []
   \<and> fst (serpapi_job False example_config (answers [untitled, posting ''Clerk'' ''a'']) empty_world)
       = Inl IntegrityError
   \<and> jobs (snd (serpapi_job False example_config (answers [untitled, posting ''Clerk'' ''a'']) empty_world))
       = []"
  by (simp add: cycle_defs example_defs)

section \<open>C3: the key stays unique\<close>

text \<open>
  C3 (as amended). If no two stored listings share a (title, company, location) triple
  before a cycle, none do after it, provided the session autoflushes before each query
  or the response itself holds no two candidates with the same triple. The invariant is
  that the keys of the rows of the table are pairwise distinct: two rows with equal
  keys are the same row.
\<close>

theorem dedup_invariant_preserved:
  assumes "dedup_invariant (jobs w)"
    and "af \<or> distinct (map candidate_key (reply_candidates (provider_reply env)))"
  shows "dedup_invariant (jobs (snd (serpapi_job af cfg env w)))"
proof (cases "commits af cfg env w")
  case False
  with assms(1) show ?thesis by (simp add: jobs_after_cycle)
next
  case True
  define F where "F = fresh af (map job_key (jobs w)) (reply_candidates (provider_reply env))"
  have d: "distinct (map candidate_key F)"
    unfolding F_def by (rule fresh_distinct [OF assms(2)])
  have disj: "set (map job_key (jobs w)) \<inter> set (map candidate_key F) = {}"
  proof (rule ccontr)
    assume "set (map job_key (jobs w)) \<inter> set (map candidate_key F) \<noteq> {}"
    then obtain k where k: "k \<in> set (map job_key (jobs w))" "k \<in> set (map candidate_key F)"
      by blast
    from k(2) obtain c where c: "c \<in> set F" "candidate_key c = k" by auto
    from fresh_not_seen [OF c(1) [unfolded F_def]] c(2) k(1) show False by simp
  qed
  have "distinct (map job_key (jobs w) @ map candidate_key F)"
    using assms(1) d disj unfolding dedup_invariant_def distinct_append by blast
  moreover have "map job_key (jobs (snd (serpapi_job af cfg env w))) =
                 map job_key (jobs w) @ map candidate_key F"
    using True by (simp only: jobs_after_cycle if_True keys_after_commit F_def)
  ultimately show ?thesis
    by (simp only: dedup_invariant_def)
qed

theorem dedup_invariant_preserved_witness:
  "dedup_invariant (jobs empty_world)
   \<and> dedup_invariant (jobs (once True repeated_postings))
   \<and> map description (jobs (once True repeated_postings)) = [Some ''first'']"
proof -
  have h: "dedup_invariant (jobs empty_world)"
    by (simp add: dedup_invariant_def empty_world_def)
  have "dedup_invariant (jobs (once True repeated_postings))"
    unfolding once_def by (rule dedup_invariant_preserved [OF h]) simp
  moreover have "map description (jobs (once True repeated_postings)) = [Some ''first'']"
    by (simp add: once_def cycle_defs example_defs)
  ultimately show ?thesis using h by simp
qed

text \<open>
  The claim as stated, for every cycle, fails on a session without autoflush: the lookup
  does not see the candidate added a moment before, and both copies are committed.
\<close>

theorem dedup_invariant_counterexample:
  "dedup_invariant (jobs empty_world)
   \<and> \<not> dedup_invariant (jobs (once False repeated_postings))
   \<and> map job_key (jobs (once False repeated_postings)) =
       [(Some ''Backend Engineer'', Some ''Acme'', Some ''Durban''),
        (Some ''Backend Engineer'', Some ''Acme'', Some ''Durban'')]"
  by (simp add: dedup_invariant_def once_def cycle_defs example_defs)

section \<open>C4: no credential, no cycle\<close>

text \<open>
  C4. When the provider credential is not configured (\<open>SERPAPI_KEY\<close> unset or empty), the
  cycle returns at once from any starting state: no request is issued, and the jobs table
  and the run ledger are exactly what they were. Only the warning is logged.
\<close>

theorem no_credential_no_op:
  assumes "key_missing cfg"
  shows "fst (serpapi_job af cfg env w) = Inr ()
       \<and> requests_sent (snd (serpapi_job af cfg env w)) = requests_sent w
       \<and> jobs (snd (serpapi_job af cfg env w)) = jobs w
       \<and> scheduled_runs (snd (serpapi_job af cfg env w)) = scheduled_runs w
       \<and> now (snd (serpapi_job af cfg env w)) = now w"
  using assms by (simp add: serpapi_job_def fetch_and_store_jobs_def)

theorem no_credential_no_op_witness:
  "key_missing unset_config
   \<and> fst (serpapi_job True unset_config (answers three_postings) empty_world) = Inr ()
   \<and> requests_sent (snd (serpapi_job True unset_config (answers three_postings) empty_world)) = []
   \<and> jobs (snd (serpapi_job True unset_config (answers three_postings) empty_world)) = []
   \<and> scheduled_runs (snd (serpapi_job True unset_config (answers three_postings) empty_world)) = []"
proof -
  have k: "key_missing unset_config"
    by (simp add: key_missing_def unset_config_def)
  show ?thesis
    using k no_credential_no_op [OF k, of True "answers three_postings" empty_world]
    by (simp add: empty_world_def)
qed

section \<open>C5: one run record per completed cycle\<close>

text \<open>
  C5 (as amended). Every cycle that fetches and completes, however many candidates the
  provider returned, appends exactly one run record, with \<open>api_calls_made = 1\<close>, the
  number of requests the cycle issued, and \<open>success = 1\<close>. Its \<open>run_time\<close> is the clock
  read when the record is built, after the request has returned and the candidates have
  been processed: the start of the cycle plus the time the request took.
\<close>

theorem run_accounting:
  assumes "serpapi_job af cfg env w = (Inr (), w')" and "\<not> key_missing cfg"
  shows "scheduled_runs w' = scheduled_runs w @
           [\<lparr>run_id = Some (Suc (largest_run_id (scheduled_runs w))),
             run_time = Some (now w + latency env), api_calls_made = 1, success = 1\<rparr>]
       \<and> requests_sent w' = requests_sent w @ [params cfg]
       \<and> now w' = now w + latency env"
  unfolding cycle_success(2) [OF assms]
  by (simp add: stored_run_def ScheduledRun_def)

theorem run_accounting_witness:
  "serpapi_job True example_config (answers three_postings) empty_world
     = (Inr (), once True three_postings)
   \<and> \<not> key_missing example_config
   \<and> scheduled_runs (once True three_postings) = scheduled_runs empty_world @
           [\<lparr>run_id = Some (Suc (largest_run_id (scheduled_runs empty_world))),
             run_time = Some (now empty_world + latency (answers three_postings)),
             api_calls_made = 1, success = 1\<rparr>]
   \<and> requests_sent (once True three_postings) = requests_sent empty_world @ [params example_config]
   \<and> now (once True three_postings) = now empty_world + latency (answers three_postings)"
proof -
  have h1: "serpapi_job True example_config (answers three_postings) empty_world
     = (Inr (), once True three_postings)"
    by (simp add: once_def cycle_defs example_defs)
  note c = run_accounting [OF h1 example_key]
  show ?thesis
    by (rule conjI [OF h1 conjI [OF example_key c]])
qed

text \<open>
  The claim as stated has \<open>run_time\<close> equal to the start of the cycle. The cycle below
  starts at 100, its request takes 7, and the record reads 107.
\<close>

theorem run_time_counterexample:
  "fst (serpapi_job True example_config (answers []) empty_world) = Inr ()
   \<and> now empty_world = 100
   \<and> map run_time (scheduled_runs (once True [])) = [Some 107]"
  by (simp add: once_def cycle_defs example_defs)

section \<open>C6: a fetch that fails\<close>

text \<open>
  C6 (as amended). When the credential is configured and the fetch raises (the request
  times out or cannot connect, or the body is not JSON), the cycle ends with that
  exception as its result. One request has been issued; no run record is written, and
  the jobs table and the ledger are unchanged.
\<close>

theorem fetch_failure_writes_nothing:
  assumes "\<not> key_missing cfg" and "fetch_error (provider_reply env) = Some e"
  shows "fst (serpapi_job af cfg env w) = Inl e
       \<and> jobs (snd (serpapi_job af cfg env w)) = jobs w
       \<and> scheduled_runs (snd (serpapi_job af cfg env w)) = scheduled_runs w
       \<and> requests_sent (snd (serpapi_job af cfg env w)) = requests_sent w @ [params cfg]"
proof (cases "provider_reply env")
  case (NoReply x)
  with assms show ?thesis by (simp add: cycle_no_reply fetch_error_def)
next
  case (Reply st b)
  with assms show ?thesis by (cases b) (simp_all add: cycle_not_json fetch_error_def)
qed

theorem fetch_failure_writes_nothing_witness:
  "\<not> key_missing example_config
   \<and> fetch_error (provider_reply times_out) = Some (RequestException Timeout)
   \<and> fst (serpapi_job True example_config times_out two_listings) = Inl (RequestException Timeout)
   \<and> jobs (snd (serpapi_job True example_config times_out two_listings)) = jobs two_listings
   \<and> scheduled_runs (snd (serpapi_job True example_config times_out two_listings))
       = scheduled_runs two_listings
   \<and> requests_sent (snd (serpapi_job True example_config times_out two_listings))
       = requests_sent two_listings @ [params example_config]"
proof -
  have h2: "fetch_error (provider_reply times_out) = Some (RequestException Timeout)"
    by (simp add: fetch_error_def times_out_def)
  note c = fetch_failure_writes_nothing [OF example_key h2, of True two_listings]
  show ?thesis
    by (rule conjI [OF example_key conjI [OF h2 c]])
qed

text \<open>
  The claim as stated has the failed attempt recorded with \<open>success = false\<close>. After a
  timeout the ledger is as empty as before; and a reply with status 500 whose body is a
  JSON object is not a failure for the code at all: the run is recorded with
  \<open>success = 1\<close>.
\<close>

theorem fetch_failure_counterexample:
  "\<not> key_missing example_config
   \<and> provider_reply times_out = NoReply Timeout
   \<and> fst (serpapi_job True example_config times_out empty_world) = Inl (RequestException Timeout)
   \<and> scheduled_runs (snd (serpapi_job True example_config times_out empty_world)) = []
   \<and> provider_reply server_error = Reply 500 (Json None)
   \<and> map success (scheduled_runs (snd (serpapi_job True example_config server_error empty_world))) = [1]"
  by (simp add: cycle_defs example_defs)

section \<open>C7: absent fields\<close>

text \<open>
  C7 (as amended). For every candidate object of the response, with any subset of its
  fields absent, the mapping into a \<open>Job\<close> populates each absent field, the title
  included, with an absent value (\<open>None\<close>), the link also when \<open>detected_extensions\<close> is
  absent, and does not throw; it throws only when \<open>detected_extensions\<close> is present and
  is null or not an object. When the response has the shape of the wire contract and
  every candidate carries a title, no absent field makes the cycle fail: the cycle
  completes unless the database refuses the COMMIT.
\<close>

theorem absent_fields_tolerated:
  "(j_detected_extensions c \<noteq> ExtensionsOther \<longrightarrow>
      (\<exists>j. job_of_json c = Inr j
         \<and> (j_title c = None \<longrightarrow> title j = None)
         \<and> (j_company_name c = None \<longrightarrow> company j = None)
         \<and> (j_location c = None \<longrightarrow> location j = None)
         \<and> (j_description c = None \<longrightarrow> description j = None)
         \<and> (j_published_at c = None \<longrightarrow> date_posted j = None)
         \<and> (j_detected_extensions c = ExtensionsMissing
              \<or> j_detected_extensions c = ExtensionsObject \<lparr>link = None\<rparr> \<longrightarrow> url j = None)))
   \<and> (j_detected_extensions c = ExtensionsOther \<longrightarrow> job_of_json c = Inl AttributeError)
   \<and> (\<not> key_missing cfg
        \<and> json_provider_reply env = JsonReply st (BodyJson (DataObject rs))
        \<and> contract_shape rs \<and> all_titled rs
      \<longrightarrow> fst (serpapi_job_json af cfg env w)
            = (if json_commit_ok env then Inr () else Inl CommitError))"
proof -
  have 1: "\<exists>j. job_of_json c = Inr j
         \<and> (j_title c = None \<longrightarrow> title j = None)
         \<and> (j_company_name c = None \<longrightarrow> company j = None)
         \<and> (j_location c = None \<longrightarrow> location j = None)
         \<and> (j_description c = None \<longrightarrow> description j = None)
         \<and> (j_published_at c = None \<longrightarrow> date_posted j = None)
         \<and> (j_detected_extensions c = ExtensionsMissing
              \<or> j_detected_extensions c = ExtensionsObject \<lparr>link = None\<rparr> \<longrightarrow> url j = None)"
    if "j_detected_extensions c \<noteq> ExtensionsOther"
    using that by (cases "j_detected_extensions c") (simp_all add: job_of_json_def Job_def)
  have 2: "job_of_json c = Inl AttributeError" if "j_detected_extensions c = ExtensionsOther"
    using that by (simp add: job_of_json_def)
  from 1 2 contract_cycle_completes show ?thesis by blast
qed

theorem absent_fields_tolerated_witness:
  "j_detected_extensions bare_json \<noteq> ExtensionsOther
   \<and> job_of_json bare_json = Inr (Job (Some ''Clerk'') None None None None None)
   \<and> \<not> key_missing example_config
   \<and> json_provider_reply (json_answers [ResultObject bare_json])
       = JsonReply 200 (BodyJson (DataObject (ResultsArray [ResultObject bare_json])))
   \<and> contract_shape (ResultsArray [ResultObject bare_json])
   \<and> all_titled (ResultsArray [ResultObject bare_json])
   \<and> fst (serpapi_job_json True example_config (json_answers [ResultObject bare_json]) empty_world)
       = Inr ()"
proof -
  have h0: "j_detected_extensions bare_json \<noteq> ExtensionsOther"
    by (simp add: bare_json_def)
  have m: "job_of_json bare_json = Inr (Job (Some ''Clerk'') None None None None None)"
    by (simp add: job_of_json_def bare_json_def)
  have h2: "json_provider_reply (json_answers [ResultObject bare_json])
       = JsonReply 200 (BodyJson (DataObject (ResultsArray [ResultObject bare_json])))"
    by (simp add: json_answers_def)
  have h3: "contract_shape (ResultsArray [ResultObject bare_json])"
    by (simp add: contract_shape_def contract_element_def bare_json_def)
  have h4: "all_titled (ResultsArray [ResultObject bare_json])"
    by (simp add: all_titled_def titled_element_def bare_json_def)
  have c: "json_commit_ok (json_answers [ResultObject bare_json])"
    by (simp add: json_answers_def)
  from absent_fields_tolerated
         [where c = bare_json and cfg = example_config
            and env = "json_answers [ResultObject bare_json]" and st = 200
            and rs = "ResultsArray [ResultObject bare_json]" and af = True and w = empty_world]
    example_key h2 h3 h4 c
  have "fst (serpapi_job_json True example_config (json_answers [ResultObject bare_json]) empty_world)
       = Inr ()"
    by simp
  with h0 m example_key h2 h3 h4 show ?thesis by simp
qed

text \<open>
  The claim as stated lets any field be absent. The column \<open>jobs.title\<close> is declared
  \<open>nullable=False\<close>: a candidate without a title is mapped to a \<open>Job\<close> without one, the
  lookup finds no such row, and the INSERT is rejected; the cycle fails and writes
  nothing, although the reply has the shape of the wire contract.
\<close>

theorem absent_title_counterexample:
  "j_title untitled_json = None
   \<and> contract_shape (ResultsArray [ResultObject untitled_json])
   \<and> job_of_json untitled_json
       = Inr (Job None (Some ''Acme'') (Some ''Durban'') (Some ''no title given'') None None)
   \<and> fst (serpapi_job_json True example_config (json_answers [ResultObject untitled_json]) empty_world)
       = Inl IntegrityError
   \<and> fst (serpapi_job_json False example_config (json_answers [ResultObject untitled_json]) empty_world)
       = Inl IntegrityError
   \<and> jobs (snd (serpapi_job_json True example_config
                  (json_answers [ResultObject bare_json, ResultObject untitled_json]) empty_world))
       = []
   \<and> r_title untitled = None
   \<and> fst (serpapi_job True example_config (answers [untitled]) empty_world) = Inl IntegrityError"
  by (simp add: json_cycle_defs json_example_defs contract_shape_def contract_element_def
      cycle_defs example_defs)

text \<open>
  A field that is present with the wrong type is another matter, and none of the
  claim's: \<open>detected_extensions\<close> present as null makes the mapping raise, but only when
  the lookup has found no listing for the candidate.
\<close>

lemma null_extensions_example:
  "fst (serpapi_job_json True example_config
          (json_answers [ResultObject null_extensions_json]) empty_world) = Inl AttributeError
   \<and> fst (serpapi_job_json True example_config
          (json_answers [ResultObject null_extensions_json]) two_listings) = Inr ()
   \<and> fst (serpapi_job_json True example_config (json_answers [ResultOther]) empty_world)
       = Inl AttributeError"
  by (simp add: json_cycle_defs json_example_defs)

section \<open>C8: one unit of work\<close>

text \<open>
  C8. The listings and the run record of a cycle are committed together by the one
  \<open>db.commit()\<close> at its end. A cycle that does not complete leaves the jobs table and
  the run ledger exactly as they were; in particular, when the commit fails (the INSERTs
  are rejected or the database refuses the COMMIT) nothing the cycle wrote persists and
  the exception is the result of the scheduler's job, which has no handler for it.
\<close>

theorem failed_cycle_persists_nothing:
  "(fst (serpapi_job af cfg env w) \<noteq> Inr ()
      \<longrightarrow> jobs (snd (serpapi_job af cfg env w)) = jobs w
        \<and> scheduled_runs (snd (serpapi_job af cfg env w)) = scheduled_runs w)
   \<and> (\<not> key_missing cfg \<and> provider_reply env = Reply st (Json d) \<and> \<not> commit_ok env
      \<longrightarrow> (fst (serpapi_job af cfg env w) = Inl CommitError
           \<or> fst (serpapi_job af cfg env w) = Inl IntegrityError))"
proof (cases "key_missing cfg")
  case True
  then show ?thesis by (simp add: cycle_no_key)
next
  case False
  show ?thesis
  proof (cases "provider_reply env")
    case (NoReply x)
    with False show ?thesis by (simp add: cycle_no_reply)
  next
    case (Reply st' b)
    show ?thesis
    proof (cases b)
      case NotJson
      with False Reply show ?thesis by (simp add: cycle_not_json)
    next
      case (Json d')
      with False Reply show ?thesis
        by (simp add: cycle_closed [OF False, of env st' d'] Let_def)
    qed
  qed
qed

theorem failed_cycle_persists_nothing_witness:
  "\<not> key_missing example_config
   \<and> provider_reply (refuses three_postings) = Reply 200 (Json (Some three_postings))
   \<and> \<not> commit_ok (refuses three_postings)
   \<and> fst (serpapi_job True example_config (refuses three_postings) two_listings) = Inl CommitError
   \<and> jobs (snd (serpapi_job True example_config (refuses three_postings) two_listings))
       = jobs two_listings
   \<and> scheduled_runs (snd (serpapi_job True example_config (refuses three_postings) two_listings))
       = scheduled_runs two_listings"
proof -
  have h2: "provider_reply (refuses three_postings) = Reply 200 (Json (Some three_postings))"
    by (simp add: refuses_def)
  have h3: "\<not> commit_ok (refuses three_postings)"
    by (simp add: refuses_def)
  have f: "fst (serpapi_job True example_config (refuses three_postings) two_listings) = Inl CommitError"
    by (simp add: cycle_defs example_defs)
  from failed_cycle_persists_nothing
         [of True example_config "refuses three_postings" two_listings 200 "Some three_postings"] f
  have "jobs (snd (serpapi_job True example_config (refuses three_postings) two_listings))
          = jobs two_listings
      \<and> scheduled_runs (snd (serpapi_job True example_config (refuses three_postings) two_listings))
          = scheduled_runs two_listings"
    by simp
  with example_key h2 h3 f show ?thesis by simp
qed

section \<open>C9: the title filter of the listing query\<close>

text \<open>
  C9. The claim: the filter is a case-insensitive substring match of the query text
  against the title. The code builds the pattern by splicing the text between two
  \<open>%\<close> without escaping it, so a \<open>%\<close> or \<open>_\<close> in the text is a wildcard. The query
  \<open>q = _\<close> on the store of the claim's example returns both listings, although neither
  title contains an underscore; the substring match of the claim returns none. (On
  ASCII text without these two characters the filter is the substring match, and the
  claim's example holds: lemmas \<open>list_jobs_filtered\<close> and \<open>engineer_any_case\<close>.)
\<close>

theorem underscore_query_returns_all:
  "\<not> ci_substring ''_'' (Some ''Backend Engineer'')
   \<and> \<not> ci_substring ''_'' (Some ''Data Analyst'')
   \<and> list_jobs (query ''_'') two_listings
        = Some \<lparr>data = [item_of (titled 2 ''Data Analyst'' 20),
                        item_of (titled 1 ''Backend Engineer'' 10)],
                total = 2, page = 1\<rparr>
   \<and> list_jobs (query ''ENGINEER'') two_listings
        = Some \<lparr>data = [item_of (titled 1 ''Backend Engineer'' 10)], total = 1, page = 1\<rparr>"
proof -
  have l: "lower ''_'' = ''_''" by (simp add: lower_defs)
  have 1: "\<not> ci_substring ''_'' (Some ''Backend Engineer'')"
    by (simp add: ci_substring_def lower_defs sublist_Cons_right prefix_Cons)
  have 2: "\<not> ci_substring ''_'' (Some ''Data Analyst'')"
    by (simp add: ci_substring_def lower_defs sublist_Cons_right prefix_Cons)
  have 3: "list_jobs (query ''_'') two_listings
        = Some \<lparr>data = [item_of (titled 2 ''Data Analyst'' 20),
                        item_of (titled 1 ''Backend Engineer'' 10)],
                total = 2, page = 1\<rparr>"
    by (simp add: list_jobs_def query_def l title_filter_def ilike_def two_listings_def
        titled_def order_by_created_desc_def created_rank_def ascii_text_def ascii_titles_def
        Let_def)
  have e: "lower ''ENGINEER'' = ''engineer''" by (simp add: lower_defs)
  have q: "ascii_text ''ENGINEER''" by (simp add: ascii_text_def)
  have w: "two_listings\<lparr>jobs := [titled 1 ''Backend Engineer'' 10, titled 2 ''Data Analyst'' 20]\<rparr>
           = two_listings"
    by (simp add: two_listings_def)
  have 4: "list_jobs (query ''ENGINEER'') two_listings
        = Some \<lparr>data = [item_of (titled 1 ''Backend Engineer'' 10)], total = 1, page = 1\<rparr>"
    using engineer_any_case(1) [OF e q, of "titled 1 ''Backend Engineer'' 10"
        "titled 2 ''Data Analyst'' 20" two_listings]
    unfolding w by (simp add: titled_def)
  from 1 2 3 4 show ?thesis by simp
qed

section \<open>C10: duplicates inside one response\<close>

text \<open>
  C10 (as amended). With a session that autoflushes before each query, duplicates inside
  one response are collapsed: when a response holds two or more candidates with the same
  (title, company, location) and the store holds no listing with that triple, the store
  holds exactly one listing with it after the cycle has completed.
\<close>

theorem response_duplicates_collapsed:
  assumes "serpapi_job True cfg env w = (Inr (), w')"
    and "\<not> key_missing cfg"
    and "provider_reply env = Reply st (Json d)"
    and "2 \<le> length (filter (\<lambda>c. candidate_key c = k) (jobs_results d))"
    and "k \<notin> job_key ` set (jobs w)"
  shows "length (filter (\<lambda>r. job_key r = k) (jobs w')) = 1"
proof -
  define F where "F = fresh True (map job_key (jobs w)) (jobs_results d)"
  have rc: "reply_candidates (provider_reply env) = jobs_results d"
    by (simp add: assms(3) reply_candidates_def)
  note w' = cycle_success(2) [OF assms(1,2), unfolded rc]
  have keys: "map job_key (jobs w') = map job_key (jobs w) @ map candidate_key F"
    by (simp add: w' F_def)
  have "filter (\<lambda>c. candidate_key c = k) (jobs_results d) \<noteq> []"
    using assms(4) by auto
  then obtain c where c: "c \<in> set (jobs_results d)" "candidate_key c = k"
    by (auto simp: filter_empty_conv)
  from fresh_covers [OF c(1), of "map job_key (jobs w)" True] assms(5) c(2)
  have kin: "k \<in> set (map candidate_key F)" by (auto simp: F_def)
  have old: "filter (\<lambda>y. y = k) (map job_key (jobs w)) = []"
    using assms(5) by (auto simp: filter_empty_conv)
  have "length (filter (\<lambda>y. y = k) (map candidate_key F)) = 1"
    by (rule filter_distinct_one [OF _ kin]) (simp add: F_def fresh_on_distinct)
  then show ?thesis
    unfolding length_filter_key [of job_key] keys by (simp add: old)
qed

theorem response_duplicates_collapsed_witness:
  "serpapi_job True example_config (answers mixed_postings) empty_world
     = (Inr (), once True mixed_postings)
   \<and> \<not> key_missing example_config
   \<and> provider_reply (answers mixed_postings) = Reply 200 (Json (Some mixed_postings))
   \<and> 2 \<le> length (filter (\<lambda>c. candidate_key c = (Some ''Backend Engineer'', Some ''Acme'', Some ''Durban''))
                    (jobs_results (Some mixed_postings)))
   \<and> (Some ''Backend Engineer'', Some ''Acme'', Some ''Durban'') \<notin> job_key ` set (jobs empty_world)
   \<and> length (filter (\<lambda>r. job_key r = (Some ''Backend Engineer'', Some ''Acme'', Some ''Durban''))
               (jobs (once True mixed_postings))) = 1"
proof -
  have h1: "serpapi_job True example_config (answers mixed_postings) empty_world
     = (Inr (), once True mixed_postings)"
    by (simp add: once_def cycle_defs example_defs)
  have h3: "provider_reply (answers mixed_postings) = Reply 200 (Json (Some mixed_postings))"
    by (simp add: answers_def)
  have h4: "2 \<le> length (filter (\<lambda>c. candidate_key c = (Some ''Backend Engineer'', Some ''Acme'', Some ''Durban''))
                    (jobs_results (Some mixed_postings)))"
    by (simp add: jobs_results_def candidate_key_def example_defs)
  have h5: "(Some ''Backend Engineer'', Some ''Acme'', Some ''Durban'') \<notin> job_key ` set (jobs empty_world)"
    by (simp add: empty_world_def)
  note c = response_duplicates_collapsed [OF h1 example_key h3 h4 h5]
  show ?thesis
    by (rule conjI [OF h1 conjI [OF example_key conjI [OF h3 conjI [OF h4 conjI [OF h5 c]]]]])
qed

text \<open>
  The claim as stated holds for every session. Without autoflush the second copy is not
  seen by the lookup, and the completed cycle leaves two listings with the triple.
\<close>

theorem response_duplicates_counterexample:
  "fst (serpapi_job False example_config (answers mixed_postings) empty_world) = Inr ()
   \<and> length (filter (\<lambda>c. candidate_key c = (Some ''Backend Engineer'', Some ''Acme'', Some ''Durban''))
               mixed_postings) = 2
   \<and> jobs empty_world = []
   \<and> length (filter (\<lambda>r. job_key r = (Some ''Backend Engineer'', Some ''Acme'', Some ''Durban''))
               (jobs (once False mixed_postings))) = 2"
  by (simp add: once_def cycle_defs example_defs)

end
